theory Spec2Isabelle
  imports Complex_Main "HOL-Library.Word" "HOL-Library.Log_Nat"
begin

section \<open>Circuit breaker\<close>

text \<open>
  The breaker of the consumer service. \<open>CircuitState\<close> is Go's
  \<^verbatim>\<open>type CircuitState int32\<close> with the three constants \<open>StateClosed = 0\<close>,
  \<open>StateHalfOpen = 1\<close>, \<open>StateOpen = 2\<close>; the \<open>state\<close> field is only ever
  written with one of them (by \<open>NewCircuitBreaker\<close> and by the compare-and-swaps below),
  so the \<open>default\<close> branch of \<open>canExecute\<close> is never taken and the enum is a datatype.

  The counters are \<open>int32\<close>: 32-bit words read as two's complement (\<open>sint\<close>), and
  \<open>atomic.AddInt32\<close> wraps around. Times are nanoseconds since the Unix epoch and
  durations are nanoseconds, both \<open>int\<close>.
\<close>

datatype CircuitState = StateClosed | StateHalfOpen | StateOpen

type_synonym int32 = "32 word"

record CircuitBreaker =
  name :: string
  maxFailures :: int32
  resetTimeout :: int
  halfOpenSuccess :: int32
  state :: CircuitState
  failures :: int32
  lastFailureTime :: int
  halfOpenSuccesses :: int32

definition NewCircuitBreaker :: "string \<Rightarrow> int32 \<Rightarrow> int \<Rightarrow> int32 \<Rightarrow> CircuitBreaker" where
  "NewCircuitBreaker nm mf rt hs =
     \<lparr>name = nm, maxFailures = mf, resetTimeout = rt, halfOpenSuccess = hs,
      state = StateClosed, failures = 0, lastFailureTime = 0, halfOpenSuccesses = 0\<rparr>"

text \<open>
  \<^verbatim>\<open>atomic.CompareAndSwapInt32(&cb.state, old, new)\<close>: the swap happens, and is reported,
  only when the field still holds \<open>old\<close>.
\<close>

definition CompareAndSwapState ::
  "CircuitBreaker \<Rightarrow> CircuitState \<Rightarrow> CircuitState \<Rightarrow> bool \<times> CircuitBreaker" where
  "CompareAndSwapState cb old new =
     (if state cb = old then (True, cb\<lparr>state := new\<rparr>) else (False, cb))"

text \<open>
  \<^verbatim>\<open>time.Since(time.Unix(0, lastFailure))\<close>: the wall-clock difference, saturated to the
  range of a \<open>time.Duration\<close> (an \<open>int64\<close>) as \<open>Time.Sub\<close> does.
\<close>

definition Since :: "int \<Rightarrow> int \<Rightarrow> int" where
  "Since now t = max (- (2 ^ 63)) (min (2 ^ 63 - 1) (now - t))"

text \<open>
  \<open>canExecute\<close>, split at its first line: \<open>canExecute_from loaded now cb\<close> is the rest
  of the function once \<^verbatim>\<open>atomic.LoadInt32(&cb.state)\<close> has returned \<open>loaded\<close>, run at
  wall-clock time \<open>now\<close> on the breaker \<open>cb\<close> (which another caller may have changed
  since the load). It returns the answer and the breaker afterwards.
\<close>

definition canExecute_from :: "CircuitState \<Rightarrow> int \<Rightarrow> CircuitBreaker \<Rightarrow> bool \<times> CircuitBreaker" where
  "canExecute_from loaded now cb =
     (case loaded of
        StateClosed \<Rightarrow> (True, cb)
      | StateOpen \<Rightarrow>
          (if Since now (lastFailureTime cb) > resetTimeout cb
           then (case CompareAndSwapState cb StateOpen StateHalfOpen of
                   (True, cb') \<Rightarrow> (True, cb'\<lparr>halfOpenSuccesses := 0\<rparr>)
                 | (False, cb') \<Rightarrow> (True, cb'))
           else (False, cb))
      | StateHalfOpen \<Rightarrow> (True, cb))"

definition canExecute :: "int \<Rightarrow> CircuitBreaker \<Rightarrow> bool \<times> CircuitBreaker" where
  "canExecute now cb = canExecute_from (state cb) now cb"

text \<open>
  \<open>recordFailure\<close> at wall-clock time \<open>now\<close>: the state is loaded, the failure counter
  incremented (wrapping) and the time stored, before the switch on the loaded state.
\<close>

definition recordFailure :: "int \<Rightarrow> CircuitBreaker \<Rightarrow> CircuitBreaker" where
  "recordFailure now cb =
     (let st = state cb;
          fs = failures cb + 1;
          cb1 = cb\<lparr>failures := fs, lastFailureTime := now\<rparr>
      in case st of
           StateClosed \<Rightarrow>
             (if sint (maxFailures cb1) \<le> sint fs
              then snd (CompareAndSwapState cb1 StateClosed StateOpen)
              else cb1)
         | StateHalfOpen \<Rightarrow>
             (case CompareAndSwapState cb1 StateHalfOpen StateOpen of
                (True, cb2) \<Rightarrow> cb2\<lparr>failures := 0\<rparr>
              | (False, cb2) \<Rightarrow> cb2)
         | StateOpen \<Rightarrow> cb1)"

definition recordSuccess :: "CircuitBreaker \<Rightarrow> CircuitBreaker" where
  "recordSuccess cb =
     (case state cb of
        StateClosed \<Rightarrow> cb\<lparr>failures := 0\<rparr>
      | StateHalfOpen \<Rightarrow>
          (let successes = halfOpenSuccesses cb + 1;
               cb1 = cb\<lparr>halfOpenSuccesses := successes\<rparr>
           in if sint (halfOpenSuccess cb1) \<le> sint successes
              then (case CompareAndSwapState cb1 StateHalfOpen StateClosed of
                      (True, cb2) \<Rightarrow> cb2\<lparr>failures := 0, halfOpenSuccesses := 0\<rparr>
                    | (False, cb2) \<Rightarrow> cb2)
              else cb1)
      | StateOpen \<Rightarrow> cb)"

text \<open>
  A sequence of outcomes reported to the breaker, oldest first: a failure carries the
  wall-clock time at which \<open>recordFailure\<close> reads the clock.
\<close>

datatype outcome = Failure int | Success

fun record_outcome :: "CircuitBreaker \<Rightarrow> outcome \<Rightarrow> CircuitBreaker" where
  "record_outcome cb (Failure now) = recordFailure now cb"
| "record_outcome cb Success = recordSuccess cb"

definition record_all :: "CircuitBreaker \<Rightarrow> outcome list \<Rightarrow> CircuitBreaker" where
  "record_all cb os = foldl record_outcome cb os"

text \<open>The number of failures at the end of a sequence, since its last success.\<close>

fun is_Success :: "outcome \<Rightarrow> bool" where
  "is_Success Success = True"
| "is_Success (Failure _) = False"

definition consecutive_failures :: "outcome list \<Rightarrow> nat" where
  "consecutive_failures os = length (takeWhile (\<lambda>x. \<not> is_Success x) (rev os))"

text \<open>
  Reaching the threshold: the sequence ends in a run of failures whose length is at least
  \<open>maxFailures\<close> (for a threshold of zero or less, the first failure reaches it).
\<close>

definition threshold_reached :: "CircuitBreaker \<Rightarrow> outcome list \<Rightarrow> bool" where
  "threshold_reached cb os \<longleftrightarrow>
     0 < consecutive_failures os \<and> sint (maxFailures cb) \<le> int (consecutive_failures os)"

text \<open>
  A breaker with a threshold of one failure and a reset timeout of 30, opened by a
  failure at time 10; and the same breaker while probing: moved to half-open by a call
  at time 100, with one successful probe recorded.
\<close>

definition opened_breaker :: CircuitBreaker where
  "opened_breaker = recordFailure 10 (NewCircuitBreaker ''liquidity'' 1 30 2)"

definition probing_breaker :: CircuitBreaker where
  "probing_breaker = recordSuccess (snd (canExecute 100 opened_breaker))"

section \<open>Retry with backoff\<close>

text \<open>
  Go's \<open>error\<close> values that \<open>RetryWithBackoff\<close> handles: the two package-level
  sentinels, the two errors of a context, an error of the operation (by its text), and
  \<^verbatim>\<open>fmt.Errorf("...: %w", err)\<close>, which wraps \<open>err\<close> (\<open>None\<close> is \<open>nil\<close>)
  under one of the formats used by the consumer.
\<close>

datatype errfmt =
    CircuitBreakerOpen
  | RetryCancelled
  | MaxRetriesExceeded int
  | LiquidityCheckFailed
  | CreditBankFailed

datatype error =
    ErrCircuitOpen
  | ErrTooManyFailures
  | ContextCanceled
  | ContextDeadlineExceeded
  | OpError string
  | Errorf errfmt "error option"

fun Unwrap :: "error \<Rightarrow> error option" where
  "Unwrap (Errorf _ e) = e"
| "Unwrap _ = None"

text \<open>
  \<open>Multiplier\<close> is a \<open>float64\<close>. A \<open>float64\<close> is a finite value, an infinity or a
  NaN; the finite values are the rationals that \<open>round64\<close> returns (the sign of a zero is
  not kept: no operation below tells the two zeros apart). \<open>round64\<close> is IEEE 754
  rounding to the nearest double, ties to even: 53 significant bits, the exponent of the
  last bit no smaller than \<open>-1074\<close> (gradual underflow), and an infinity once the
  exponent of the rounded magnitude is beyond 1023.
\<close>

datatype float64 = Finite rat | PosInf | NegInf | NaN

definition pow2 :: "int \<Rightarrow> rat" where
  "pow2 e = (if 0 \<le> e then 2 ^ nat e else 1 / 2 ^ nat (- e))"

text \<open>
  For \<open>x > 0\<close>, the \<open>e\<close> with \<open>2^e \<le> x < 2^(e+1)\<close>, found from the bit lengths of
  numerator and denominator (it is one of their difference and the number below it).
\<close>

definition binary_exponent :: "rat \<Rightarrow> int" where
  "binary_exponent x =
     (let e0 = bitlen (fst (quotient_of x)) - bitlen (snd (quotient_of x))
      in if pow2 e0 \<le> x then e0 else e0 - 1)"

definition round_half_even :: "rat \<Rightarrow> int" where
  "round_half_even r =
     (let f = \<lfloor>r\<rfloor>; d = r - of_int f
      in if d < 1 / 2 then f else if 1 / 2 < d then f + 1 else if even f then f else f + 1)"

definition round64 :: "rat \<Rightarrow> float64" where
  "round64 x =
     (if x = 0 then Finite 0
      else (let q = max (binary_exponent \<bar>x\<bar> - 52) (- 1074);
                v = of_int (round_half_even (\<bar>x\<bar> / pow2 q)) * pow2 q
            in if 1023 < binary_exponent v then (if x < 0 then NegInf else PosInf)
               else Finite (sgn x * v)))"

text \<open>\<^verbatim>\<open>float64(delay)\<close> of an integer, and the product of two \<open>float64\<close> values.\<close>

definition float64_of_int :: "int \<Rightarrow> float64" where
  "float64_of_int i = round64 (of_int i)"

fun fsign :: "float64 \<Rightarrow> int" where
  "fsign (Finite a) = (if a = 0 then 0 else if 0 < a then 1 else - 1)"
| "fsign PosInf = 1"
| "fsign NegInf = - 1"
| "fsign NaN = 0"

fun fmul :: "float64 \<Rightarrow> float64 \<Rightarrow> float64" where
  "fmul NaN y = NaN"
| "fmul x NaN = NaN"
| "fmul (Finite a) (Finite b) = round64 (a * b)"
| "fmul x y = (if fsign x * fsign y = 0 then NaN
               else if fsign x * fsign y < 0 then NegInf else PosInf)"

text \<open>
  \<^verbatim>\<open>time.Duration(x)\<close> of a \<open>float64\<close>: the value truncated towards zero when an
  \<open>int64\<close> can hold it. Otherwise (too large, an infinity, a NaN) Go leaves the result
  to the implementation; \<open>unrep\<close> is the implementation's answer.
\<close>

definition Duration_of_float64 :: "(float64 \<Rightarrow> int) \<Rightarrow> float64 \<Rightarrow> int" where
  "Duration_of_float64 unrep x =
     (case x of
        Finite r \<Rightarrow>
          (let t = (if 0 \<le> r then \<lfloor>r\<rfloor> else \<lceil>r\<rceil>)
           in if - (2 ^ 63) \<le> t \<and> t < 2 ^ 63 then t else unrep x)
      | _ \<Rightarrow> unrep x)"

text \<open>
  The configuration. Durations are nanoseconds. The breaker that
  \<open>config.CircuitBreaker\<close> points to is shared, mutable state: it is passed beside the
  configuration (\<open>None\<close> is the \<open>nil\<close> pointer) and returned updated.
\<close>

record RetryConfig =
  MaxAttempts :: int
  InitialDelay :: int
  MaxDelay :: int
  Multiplier :: float64

text \<open>
  What one call of \<open>RetryWithBackoff\<close> meets: the error returned by the operation on its
  \<open>k\<close>-th invocation (\<open>None\<close> is \<open>nil\<close>), whether the context is done during the wait
  after attempt \<open>k\<close> (and with which error), the wall-clock times read by
  \<open>canExecute\<close> before attempt \<open>k\<close> and by \<open>recordFailure\<close> after it, and what the
  platform's conversion to \<open>int64\<close> answers for a \<open>float64\<close> that no \<open>int64\<close> holds.
\<close>

record retry_env =
  fn :: "int \<Rightarrow> error option"
  ctx_done :: "int \<Rightarrow> error option"
  check_time :: "int \<Rightarrow> int"
  fail_time :: "int \<Rightarrow> int"
  unrepresentable :: "float64 \<Rightarrow> int"

text \<open>
  The update of the delay after a wait:
  \<^verbatim>\<open>delay = time.Duration(float64(delay) * config.Multiplier)\<close>, then the cap at
  \<open>MaxDelay\<close>.
\<close>

definition next_delay :: "retry_env \<Rightarrow> RetryConfig \<Rightarrow> int \<Rightarrow> int" where
  "next_delay env config delay =
     (let d = Duration_of_float64 (unrepresentable env)
                (fmul (float64_of_int delay) (Multiplier config))
      in if d > MaxDelay config then MaxDelay config else d)"

text \<open>What the call does to the outside, in order: invocations of the operation and completed waits.\<close>

datatype event = Invoked int | Slept int

definition breaker_check :: "retry_env \<Rightarrow> int \<Rightarrow> CircuitBreaker option \<Rightarrow> bool \<times> CircuitBreaker option" where
  "breaker_check env attempt cb =
     (case cb of
        None \<Rightarrow> (True, None)
      | Some b \<Rightarrow> (fst (canExecute (check_time env attempt) b),
                   Some (snd (canExecute (check_time env attempt) b))))"

definition max_retries_error :: "RetryConfig \<Rightarrow> error option \<Rightarrow> error" where
  "max_retries_error config lastErr = Errorf (MaxRetriesExceeded (MaxAttempts config)) lastErr"

definition circuit_open_error :: error where
  "circuit_open_error = Errorf CircuitBreakerOpen (Some ErrCircuitOpen)"

text \<open>
  The \<open>for\<close> loop of \<open>RetryWithBackoff\<close> from the head of an iteration, with the local
  variables \<open>attempt\<close>, \<open>delay\<close> and \<open>lastErr\<close>, the breaker and the events so far.
  The result is the returned error (\<open>None\<close> is \<open>nil\<close>), the breaker and the events.
\<close>

function RetryLoop ::
  "retry_env \<Rightarrow> RetryConfig \<Rightarrow> int \<Rightarrow> int \<Rightarrow> error option \<Rightarrow> CircuitBreaker option \<Rightarrow> event list
   \<Rightarrow> error option \<times> CircuitBreaker option \<times> event list" where
  "RetryLoop env config attempt delay lastErr cb tr =
     (if attempt \<le> MaxAttempts config then
        (if \<not> fst (breaker_check env attempt cb)
         then (Some circuit_open_error, snd (breaker_check env attempt cb), tr)
         else
           (case fn env attempt of
              None \<Rightarrow>
                (None, map_option recordSuccess (snd (breaker_check env attempt cb)),
                 tr @ [Invoked attempt])
            | Some err \<Rightarrow>
                (if attempt \<ge> MaxAttempts config
                 then (Some (max_retries_error config (Some err)),
                       map_option (recordFailure (fail_time env attempt))
                         (snd (breaker_check env attempt cb)),
                       tr @ [Invoked attempt])
                 else
                   (case ctx_done env attempt of
                      Some cerr \<Rightarrow>
                        (Some (Errorf RetryCancelled (Some cerr)),
                         map_option (recordFailure (fail_time env attempt))
                           (snd (breaker_check env attempt cb)),
                         tr @ [Invoked attempt])
                    | None \<Rightarrow>
                        RetryLoop env config (attempt + 1) (next_delay env config delay) (Some err)
                          (map_option (recordFailure (fail_time env attempt))
                             (snd (breaker_check env attempt cb)))
                          (tr @ [Invoked attempt, Slept delay])))))
      else (Some (max_retries_error config lastErr), cb, tr))"
  by pat_completeness auto
termination
  by (relation "measure (\<lambda>(env, config, attempt, delay, lastErr, cb, tr).
                   nat (MaxAttempts config - attempt))") auto

definition RetryWithBackoff ::
  "retry_env \<Rightarrow> RetryConfig \<Rightarrow> CircuitBreaker option
   \<Rightarrow> error option \<times> CircuitBreaker option \<times> event list" where
  "RetryWithBackoff env config cb = RetryLoop env config 1 (InitialDelay config) None cb []"

definition DefaultRetryConfig :: RetryConfig where
  "DefaultRetryConfig =
     \<lparr>MaxAttempts = 3, InitialDelay = 50 * 1000000, MaxDelay = 500 * 1000000, Multiplier = Finite 2\<rparr>"

definition DefaultCircuitBreaker :: "string \<Rightarrow> CircuitBreaker" where
  "DefaultCircuitBreaker nm = NewCircuitBreaker nm 5 (30 * 1000000000) 2"

text \<open>
  The delays and events of a run of \<open>MaxAttempts\<close> attempts in which every attempt
  fails and no wait is cancelled: the \<open>k\<close>-th wait (from 0) lasts \<open>InitialDelay\<close>
  updated \<open>k\<close> times. With \<open>MaxAttempts\<close> below 1 the loop body never runs.
\<close>

definition nth_delay :: "retry_env \<Rightarrow> RetryConfig \<Rightarrow> nat \<Rightarrow> int" where
  "nth_delay env config k = (next_delay env config ^^ k) (InitialDelay config)"

definition failing_run_events :: "retry_env \<Rightarrow> RetryConfig \<Rightarrow> event list" where
  "failing_run_events env config =
     (if MaxAttempts config < 1 then []
      else concat (map (\<lambda>k. [Invoked (int k + 1), Slept (nth_delay env config k)])
                       [0 ..< nat (MaxAttempts config) - 1])
           @ [Invoked (MaxAttempts config)])"

fun is_Invoked :: "event \<Rightarrow> bool" where
  "is_Invoked (Invoked _) = True"
| "is_Invoked (Slept _) = False"

text \<open>
  An operation that fails every time, in an environment in which no wait is cancelled
  and the conversion answers the least \<open>int64\<close> for what it cannot represent, as it
  does on amd64; and the same with the context cancelled during every wait.
\<close>

definition always_failing :: retry_env where
  "always_failing =
     \<lparr>fn = (\<lambda>k. Some (OpError ''unavailable'')), ctx_done = (\<lambda>k. None),
      check_time = (\<lambda>k. 1000 * k), fail_time = (\<lambda>k. 1000 * k + 1),
      unrepresentable = (\<lambda>x. - (2 ^ 63))\<rparr>"

definition cancelled_waits :: retry_env where
  "cancelled_waits = always_failing\<lparr>ctx_done := (\<lambda>k. Some ContextCanceled)\<rparr>"

text \<open>
  Three configurations on which the update of the delay is not the exact product: a
  first delay of \<open>2^53 + 1\<close> nanoseconds with the multiplier 1.0, a first delay of 3
  nanoseconds with the \<open>float64\<close> nearest to a third, and the default delays with the
  \<open>float64\<close> nearest to \<open>10^19\<close>.
\<close>

definition long_delay_config :: RetryConfig where
  "long_delay_config =
     \<lparr>MaxAttempts = 3, InitialDelay = 9007199254740993, MaxDelay = 2 ^ 62,
      Multiplier = Finite 1\<rparr>"

definition third_config :: RetryConfig where
  "third_config =
     \<lparr>MaxAttempts = 3, InitialDelay = 3, MaxDelay = 500 * 1000000,
      Multiplier = round64 (1 / 3)\<rparr>"

definition huge_multiplier_config :: RetryConfig where
  "huge_multiplier_config =
     \<lparr>MaxAttempts = 3, InitialDelay = 50 * 1000000, MaxDelay = 500 * 1000000,
      Multiplier = round64 (10 ^ 19)\<rparr>"

declare RetryLoop.simps [simp del]

text \<open>
  The events from the head of an iteration onwards when every remaining attempt fails
  and is followed by a completed wait, \<open>k\<close> waits remaining.
\<close>

fun tail_events :: "retry_env \<Rightarrow> RetryConfig \<Rightarrow> int \<Rightarrow> int \<Rightarrow> nat \<Rightarrow> event list" where
  "tail_events env config attempt delay 0 = [Invoked attempt]"
| "tail_events env config attempt delay (Suc k) =
     Invoked attempt # Slept delay # tail_events env config (attempt + 1) (next_delay env config delay) k"

fun sleeps :: "event list \<Rightarrow> int list" where
  "sleeps [] = []"
| "sleeps (Slept d # es) = d # sleeps es"
| "sleeps (Invoked a # es) = sleeps es"

text \<open>
  A call is refused when it returns the open-circuit error. What a caller and the
  operation observe of a call is the returned error and the events.
\<close>

definition refused :: "error option \<times> CircuitBreaker option \<times> event list \<Rightarrow> bool" where
  "refused r \<longleftrightarrow> fst r = Some circuit_open_error"

definition outcome_of ::
  "error option \<times> CircuitBreaker option \<times> event list \<Rightarrow> error option \<times> event list" where
  "outcome_of r = (fst r, snd (snd r))"

text \<open>
  Two breakers for the always-failing environment, whose attempts are made at times
  1000, 2000 and 3000: one already opened at time 999 with a timeout of 30 seconds, and
  a closed one that opens at its second failure with a timeout of 5000.
\<close>

definition tripped_breaker :: CircuitBreaker where
  "tripped_breaker = recordFailure 999 (NewCircuitBreaker ''liquidity'' 1 (30 * 1000000000) 2)"

definition fragile_breaker :: CircuitBreaker where
  "fragile_breaker = NewCircuitBreaker ''liquidity'' 2 5000 2"

section \<open>Messages\<close>

text \<open>
  The pacs.008 document as \<open>xml.Unmarshal\<close> fills it, with the fields that validation,
  the liquidity check and the broadcast read. Strings are byte strings, as Go's are
  (\<open>len\<close> counts bytes).
\<close>

record Amount =
  Ccy :: string
  Value :: string

record FinancialInstitution =
  BICFI :: string

record Agent =
  FinInstnId :: FinancialInstitution

record PostalAddr =
  Ctry :: string

record Party =
  Nm :: string
  PstlAdr :: PostalAddr

record PaymentID =
  InstrId :: string

record TransactionInfo =
  PmtId :: PaymentID
  IntrBkSttlmAmt :: Amount
  IntrBkSttlmDt :: string
  ChrgBr :: string
  Dbtr :: Party
  DbtrAgt :: Agent
  CdtrAgt :: Agent
  Cdtr :: Party

record SettlementInfo =
  SttlmMtd :: string

record GroupHeader =
  MsgId :: string
  NbOfTxs :: int
  SttlmInf :: SettlementInfo

record CreditTransfer =
  GrpHdr :: GroupHeader
  CdtTrfTxInf :: "TransactionInfo list"

record Document =
  FIToFICstmrCdtTrf :: CreditTransfer

text \<open>The transaction update sent to the dashboard, and its envelope.\<close>

record TransactionMessage =
  ID :: string
  MsgID :: string
  Source :: string
  SourceCountry :: string
  Destination :: string
  DestCountry :: string
  Amount :: real
  Currency :: string
  Status :: string
  ErrorCode :: string
  ErrorMsg :: string
  Timestamp :: int
  XML :: string
  Latency :: int

datatype payload = TransactionData TransactionMessage

record WebSocketMessage =
  Type :: string
  Data :: payload

record ValidationResult =
  Valid :: bool
  ErrorCode :: string
  ErrorMsg :: string
  MsgId :: string
  Timestamp :: int
  Latency :: int

text \<open>The zero value of \<open>ValidationResult\<close>.\<close>

definition zero_result :: ValidationResult where
  "zero_result = \<lparr>Valid = False, ErrorCode = '''', ErrorMsg = '''', MsgId = '''',
                   Timestamp = 0, Latency = 0\<rparr>"

text \<open>\<^verbatim>\<open>%d\<close> of \<open>fmt.Sprintf\<close>: decimal digits, with a sign for a negative number.\<close>

definition digit :: "nat \<Rightarrow> char" where
  "digit d = ''0123456789'' ! d"

fun itoa_nat :: "nat \<Rightarrow> string" where
  "itoa_nat n = (if n < 10 then [digit n] else itoa_nat (n div 10) @ [digit (n mod 10)])"

definition itoa :: "int \<Rightarrow> string" where
  "itoa i = (if i < 0 then CHR ''-'' # itoa_nat (nat (- i)) else itoa_nat (nat i))"

section \<open>The liquidity client and the libraries\<close>

text \<open>
  The gRPC stub behind \<open>LiquidityClient\<close>: each remote call answers with a transport
  error or a response. \<open>float64\<close> amounts and balances are only passed along, never
  computed with; they are reals here.
\<close>

record LiquidityClient =
  rpc_CheckLiquidity :: "string \<Rightarrow> real \<Rightarrow> string \<Rightarrow> error + (bool \<times> real \<times> string)"
  rpc_CreditBank :: "string \<Rightarrow> real \<Rightarrow> string \<Rightarrow> error + (bool \<times> real)"

definition CheckLiquidity ::
  "LiquidityClient \<Rightarrow> string \<Rightarrow> real \<Rightarrow> string \<Rightarrow> error + (bool \<times> real \<times> string)" where
  "CheckLiquidity lc bankID amount currency =
     (case rpc_CheckLiquidity lc bankID amount currency of
        Inl err \<Rightarrow> Inl (Errorf LiquidityCheckFailed (Some err))
      | Inr (approved, balance, errorCode) \<Rightarrow> Inr (approved, balance, errorCode))"

definition CreditBank ::
  "LiquidityClient \<Rightarrow> string \<Rightarrow> real \<Rightarrow> string \<Rightarrow> error + (bool \<times> real)" where
  "CreditBank lc bankID amount currency =
     (case rpc_CreditBank lc bankID amount currency of
        Inl err \<Rightarrow> Inl (Errorf CreditBankFailed (Some err))
      | Inr (success, newBalance) \<Rightarrow> Inr (success, newBalance))"

text \<open>
  What the consumer takes from outside: the library functions it calls
  (\<open>xml.Unmarshal\<close> into a \<open>Document\<close>, with the text of the error when it fails;
  \<open>strconv.ParseFloat\<close>; \<open>fmt.Sscanf\<close> with \<^verbatim>\<open>%f\<close>; \<open>json.Marshal\<close>), the loaded
  BIC mapping and the global \<open>liquidityClient\<close> (\<open>None\<close> is \<open>nil\<close>).
\<close>

record env =
  xml_Unmarshal :: "string \<Rightarrow> string + Document"
  strconv_ParseFloat :: "string \<Rightarrow> real option"
  fmt_Sscanf_f :: "string \<Rightarrow> real option"
  json_Marshal :: "WebSocketMessage \<Rightarrow> error + string"
  bicMap :: "string \<rightharpoonup> string"
  liquidityClient :: "LiquidityClient option"

definition ExtractBankIDFromBIC :: "env \<Rightarrow> string \<Rightarrow> string" where
  "ExtractBankIDFromBIC e bic = (case bicMap e bic of Some bankID \<Rightarrow> bankID | None \<Rightarrow> bic)"

section \<open>The liquidity check\<close>

text \<open>
  \<open>checkLiquidity\<close> returns its four results and the remote calls it made, in order.
  Log lines are not modelled.
\<close>

datatype rpc = CheckLiquidityCall string real string | CreditBankCall string real string

definition checkLiquidity :: "env \<Rightarrow> string \<Rightarrow> (bool \<times> string \<times> string \<times> real) \<times> rpc list" where
  "checkLiquidity e data =
     (case xml_Unmarshal e data of
        Inl err \<Rightarrow>
          ((False, ''LIQUIDITY_CHECK_ERROR'', ''Failed to parse XML for liquidity check'', 0), [])
      | Inr doc \<Rightarrow>
          (case CdtTrfTxInf (FIToFICstmrCdtTrf doc) of
             [] \<Rightarrow> ((True, '''', '''', 0), [])
           | tx # _ \<Rightarrow>
               (let sourceBankID = ExtractBankIDFromBIC e (BICFI (FinInstnId (DbtrAgt tx)));
                    destBankID = ExtractBankIDFromBIC e (BICFI (FinInstnId (CdtrAgt tx)))
                in case strconv_ParseFloat e (Value (IntrBkSttlmAmt tx)) of
                     None \<Rightarrow> ((False, ''LIQUIDITY_CHECK_ERROR'', ''Failed to parse amount'', 0), [])
                   | Some amount \<Rightarrow>
                       (let currency = Ccy (IntrBkSttlmAmt tx)
                        in case liquidityClient e of
                             None \<Rightarrow> ((True, '''', '''', 0), [])
                           | Some lc \<Rightarrow>
                               (case CheckLiquidity lc sourceBankID amount currency of
                                  Inl err \<Rightarrow>
                                    ((True, '''', '''', 0),
                                     [CheckLiquidityCall sourceBankID amount currency])
                                | Inr (approved, balance, errorCode) \<Rightarrow>
                                    (if \<not> approved
                                     then ((False, errorCode,
                                            ''Liquidity check rejected: '' @ errorCode, balance),
                                           [CheckLiquidityCall sourceBankID amount currency])
                                     else ((True, '''', '''', 0),
                                           [CheckLiquidityCall sourceBankID amount currency,
                                            CreditBankCall destBankID amount currency])))))))"

section \<open>Validation\<close>

definition reject :: "string \<Rightarrow> string \<Rightarrow> ValidationResult \<Rightarrow> ValidationResult" where
  "reject code msg result = result\<lparr>Valid := False, ErrorCode := code, ErrorMsg := msg\<rparr>"

definition validSttlmMethods :: "string set" where
  "validSttlmMethods = {''CLRG'', ''INDA'', ''INGA'', ''COVE''}"

definition validChrgBr :: "string set" where
  "validChrgBr = {''DEBT'', ''CRED'', ''SHAR'', ''SLEV''}"

text \<open>The checks on the group header and on the list of transactions, in the order of the source.\<close>

definition check_MsgId :: "Document \<Rightarrow> ValidationResult \<Rightarrow> ValidationResult" where
  "check_MsgId doc result =
     (if GroupHeader.MsgId (GrpHdr (FIToFICstmrCdtTrf doc)) = ''''
      then reject ''MISSING_MSG_ID'' ''Message ID is required'' result
      else result\<lparr>MsgId := GroupHeader.MsgId (GrpHdr (FIToFICstmrCdtTrf doc))\<rparr>)"

definition check_NbOfTxs :: "Document \<Rightarrow> ValidationResult \<Rightarrow> ValidationResult" where
  "check_NbOfTxs doc result =
     (if NbOfTxs (GrpHdr (FIToFICstmrCdtTrf doc)) \<le> 0
      then reject ''INVALID_TX_COUNT'' ''Transaction count must be greater than 0'' result
      else result)"

definition check_SttlmMtd :: "Document \<Rightarrow> ValidationResult \<Rightarrow> ValidationResult" where
  "check_SttlmMtd doc result =
     (if SttlmMtd (SttlmInf (GrpHdr (FIToFICstmrCdtTrf doc))) \<notin> validSttlmMethods
      then reject ''INVALID_STTLM_MTD''
             ''Settlement Method must be one of: CLRG, INDA, INGA, COVE'' result
      else result)"

definition check_transactions :: "Document \<Rightarrow> ValidationResult \<Rightarrow> ValidationResult" where
  "check_transactions doc result =
     (if length (CdtTrfTxInf (FIToFICstmrCdtTrf doc)) = 0
      then reject ''NO_TRANSACTIONS'' ''At least one transaction is required'' result
      else result)"

definition bad_BIC :: "string \<Rightarrow> bool" where
  "bad_BIC bic \<longleftrightarrow> length bic < 8 \<or> length bic > 11"

definition check_DbtrBIC :: "TransactionInfo \<Rightarrow> ValidationResult \<Rightarrow> ValidationResult" where
  "check_DbtrBIC tx result =
     (if bad_BIC (BICFI (FinInstnId (DbtrAgt tx)))
      then reject ''INVALID_DBTR_BIC'' ''Debtor BIC must be 8 or 11 characters'' result
      else result)"

definition check_CdtrBIC :: "TransactionInfo \<Rightarrow> ValidationResult \<Rightarrow> ValidationResult" where
  "check_CdtrBIC tx result =
     (if bad_BIC (BICFI (FinInstnId (CdtrAgt tx)))
      then reject ''INVALID_CDTR_BIC'' ''Creditor BIC must be 8 or 11 characters'' result
      else result)"

definition check_BICs :: "Document \<Rightarrow> ValidationResult \<Rightarrow> ValidationResult" where
  "check_BICs doc result =
     (case CdtTrfTxInf (FIToFICstmrCdtTrf doc) of
        [] \<Rightarrow> result
      | tx # _ \<Rightarrow> check_CdtrBIC tx (check_DbtrBIC tx result))"

text \<open>The checks on transaction \<open>i\<close> (from 0), in the order of the loop body.\<close>

definition check_InstrId :: "nat \<Rightarrow> TransactionInfo \<Rightarrow> ValidationResult \<Rightarrow> ValidationResult" where
  "check_InstrId i tx result =
     (if InstrId (PmtId tx) = ''''
      then reject (''MISSING_PMT_ID_TX'' @ itoa (int i))
             (''Payment ID (InstrId) is required for transaction '' @ itoa (int i)) result
      else result)"

definition check_Ccy :: "nat \<Rightarrow> TransactionInfo \<Rightarrow> ValidationResult \<Rightarrow> ValidationResult" where
  "check_Ccy i tx result =
     (if Ccy (IntrBkSttlmAmt tx) = ''''
      then reject (''MISSING_CURRENCY_TX'' @ itoa (int i))
             (''Currency is required for transaction '' @ itoa (int i)) result
      else result)"

definition check_Value :: "nat \<Rightarrow> TransactionInfo \<Rightarrow> ValidationResult \<Rightarrow> ValidationResult" where
  "check_Value i tx result =
     (if Value (IntrBkSttlmAmt tx) = ''''
      then reject (''MISSING_AMOUNT_TX'' @ itoa (int i))
             (''Amount is required for transaction '' @ itoa (int i)) result
      else result)"

definition check_IntrBkSttlmDt :: "nat \<Rightarrow> TransactionInfo \<Rightarrow> ValidationResult \<Rightarrow> ValidationResult" where
  "check_IntrBkSttlmDt i tx result =
     (if IntrBkSttlmDt tx = ''''
      then reject (''MISSING_STTLM_DT_TX'' @ itoa (int i))
             (''Interbank Settlement Date is required for transaction '' @ itoa (int i)) result
      else result)"

definition check_ChrgBr :: "nat \<Rightarrow> TransactionInfo \<Rightarrow> ValidationResult \<Rightarrow> ValidationResult" where
  "check_ChrgBr i tx result =
     (if ChrgBr tx \<notin> validChrgBr
      then reject (''INVALID_CHRG_BR_TX'' @ itoa (int i))
             (''Charge Bearer must be one of: DEBT, CRED, SHAR, SLEV for transaction ''
                @ itoa (int i)) result
      else result)"

definition check_tx :: "nat \<Rightarrow> TransactionInfo \<Rightarrow> ValidationResult \<Rightarrow> ValidationResult" where
  "check_tx i tx result =
     check_ChrgBr i tx (check_IntrBkSttlmDt i tx (check_Value i tx (check_Ccy i tx
       (check_InstrId i tx result))))"

fun check_txs :: "nat \<Rightarrow> TransactionInfo list \<Rightarrow> ValidationResult \<Rightarrow> ValidationResult" where
  "check_txs i [] result = result"
| "check_txs i (tx # txs) result = check_txs (Suc i) txs (check_tx i tx result)"

definition validate_document :: "Document \<Rightarrow> ValidationResult \<Rightarrow> ValidationResult" where
  "validate_document doc result =
     check_txs 0 (CdtTrfTxInf (FIToFICstmrCdtTrf doc))
       (check_BICs doc (check_transactions doc (check_SttlmMtd doc (check_NbOfTxs doc
         (check_MsgId doc result)))))"

text \<open>
  \<open>validateTransaction\<close> reads the clock three times: \<open>t0\<close> is \<open>startTime\<close>, \<open>t1\<close>
  the \<open>Timestamp\<close>, and \<open>t2\<close> the time at which the latency is taken.
\<close>

definition validateTransaction :: "env \<Rightarrow> int \<Rightarrow> int \<Rightarrow> int \<Rightarrow> string \<Rightarrow> ValidationResult" where
  "validateTransaction e t0 t1 t2 data =
     (let result = zero_result\<lparr>Valid := True, Timestamp := t1\<rparr>
      in case xml_Unmarshal e data of
           Inl err \<Rightarrow>
             result\<lparr>Valid := False, ErrorCode := ''XML_PARSE_ERROR'',
                    ErrorMsg := ''Failed to parse XML: '' @ err, Latency := Since t2 t0\<rparr>
         | Inr doc \<Rightarrow> (validate_document doc result)\<lparr>Latency := Since t2 t0\<rparr>)"

text \<open>
  The rules as the specification lists them: the codes of all the rules that a document
  violates, in the order in which the rules are evaluated.
\<close>

definition tx_failing_rules :: "nat \<Rightarrow> TransactionInfo \<Rightarrow> string list" where
  "tx_failing_rules i tx =
     (if InstrId (PmtId tx) = '''' then [''MISSING_PMT_ID_TX'' @ itoa (int i)] else []) @
     (if Ccy (IntrBkSttlmAmt tx) = '''' then [''MISSING_CURRENCY_TX'' @ itoa (int i)] else []) @
     (if Value (IntrBkSttlmAmt tx) = '''' then [''MISSING_AMOUNT_TX'' @ itoa (int i)] else []) @
     (if IntrBkSttlmDt tx = '''' then [''MISSING_STTLM_DT_TX'' @ itoa (int i)] else []) @
     (if ChrgBr tx \<notin> validChrgBr then [''INVALID_CHRG_BR_TX'' @ itoa (int i)] else [])"

definition failing_rules :: "Document \<Rightarrow> string list" where
  "failing_rules doc =
     (let hdr = GrpHdr (FIToFICstmrCdtTrf doc); txs = CdtTrfTxInf (FIToFICstmrCdtTrf doc)
      in (if GroupHeader.MsgId hdr = '''' then [''MISSING_MSG_ID''] else []) @
         (if NbOfTxs hdr \<le> 0 then [''INVALID_TX_COUNT''] else []) @
         (if SttlmMtd (SttlmInf hdr) \<notin> validSttlmMethods then [''INVALID_STTLM_MTD''] else []) @
         (if txs = [] then [''NO_TRANSACTIONS''] else []) @
         (if txs \<noteq> [] \<and> bad_BIC (BICFI (FinInstnId (DbtrAgt (hd txs))))
          then [''INVALID_DBTR_BIC''] else []) @
         (if txs \<noteq> [] \<and> bad_BIC (BICFI (FinInstnId (CdtrAgt (hd txs))))
          then [''INVALID_CDTR_BIC''] else []) @
         concat (map (\<lambda>(i, tx). tx_failing_rules i tx) (enumerate 0 txs)))"

definition follows :: "ValidationResult \<Rightarrow> string list \<Rightarrow> bool" where
  "follows result codes \<longleftrightarrow>
     Valid result = (codes = []) \<and>
     ErrorCode result = (if codes = [] then '''' else last codes)"

section \<open>The WebSocket hub\<close>

text \<open>
  A buffered channel of byte strings: its queue, its capacity and whether it has been
  closed. Sending on a closed channel and closing a closed channel panic.
\<close>

record chan =
  buf :: "string list"
  cap :: nat
  closed :: bool

datatype panic = SendOnClosedChannel | CloseOfClosedChannel

definition make_chan :: "nat \<Rightarrow> chan" where
  "make_chan n = \<lparr>buf = [], cap = n, closed = False\<rparr>"

text \<open>
  \<^verbatim>\<open>select { case ch <- m: ... default: ... }\<close>: the send goes through when the buffer
  has room (\<open>Some\<close> of the channel afterwards); otherwise the default branch runs
  (\<open>None\<close>).
\<close>

definition try_send :: "string \<Rightarrow> chan \<Rightarrow> panic + chan option" where
  "try_send m ch =
     (if closed ch then Inl SendOnClosedChannel
      else if length (buf ch) < cap ch then Inr (Some (ch\<lparr>buf := buf ch @ [m]\<rparr>))
      else Inr None)"

definition close_chan :: "chan \<Rightarrow> panic + chan" where
  "close_chan ch = (if closed ch then Inl CloseOfClosedChannel else Inr (ch\<lparr>closed := True\<rparr>))"

text \<open>
  The hub: the keys of the \<open>clients\<close> map (clients are identified by number, standing
  for the pointer), the buffered \<open>broadcast\<close> channel, and the \<open>send\<close> channel of every
  client, in the map or not.
\<close>

record WebSocketHub =
  clients :: "nat set"
  broadcast :: chan
  send :: "nat \<Rightarrow> chan"

definition NewWebSocketHub :: "(nat \<Rightarrow> chan) \<Rightarrow> WebSocketHub" where
  "NewWebSocketHub store = \<lparr>clients = {}, broadcast = make_chan 256, send = store\<rparr>"

text \<open>The three cases of the \<open>select\<close> in \<open>Run\<close>.\<close>

definition Run_register :: "nat \<Rightarrow> WebSocketHub \<Rightarrow> WebSocketHub" where
  "Run_register client h = h\<lparr>clients := insert client (clients h)\<rparr>"

definition Run_unregister :: "nat \<Rightarrow> WebSocketHub \<Rightarrow> panic + WebSocketHub" where
  "Run_unregister client h =
     (if client \<in> clients h
      then (case close_chan (send h client) of
              Inl p \<Rightarrow> Inl p
            | Inr ch \<Rightarrow> Inr (h\<lparr>clients := clients h - {client}, send := (send h)(client := ch)\<rparr>))
      else Inr h)"

text \<open>
  The body of \<^verbatim>\<open>for client := range h.clients\<close> for one client: offer the message, and
  on a full buffer close the channel and delete the client.
\<close>

definition offer :: "string \<Rightarrow> nat \<Rightarrow> WebSocketHub \<Rightarrow> panic + WebSocketHub" where
  "offer message client h =
     (case try_send message (send h client) of
        Inl p \<Rightarrow> Inl p
      | Inr (Some ch) \<Rightarrow> Inr (h\<lparr>send := (send h)(client := ch)\<rparr>)
      | Inr None \<Rightarrow>
          (case close_chan (send h client) of
             Inl p \<Rightarrow> Inl p
           | Inr ch \<Rightarrow> Inr (h\<lparr>send := (send h)(client := ch), clients := clients h - {client}\<rparr>)))"

text \<open>
  The iteration over the map visits the keys in an order that Go leaves open: the order
  is the list \<open>order\<close>. A panic ends the loop.
\<close>

fun offer_all :: "string \<Rightarrow> nat list \<Rightarrow> WebSocketHub \<Rightarrow> panic + WebSocketHub" where
  "offer_all message [] h = Inr h"
| "offer_all message (client # rest) h =
     (case offer message client h of
        Inl p \<Rightarrow> Inl p
      | Inr h' \<Rightarrow> offer_all message rest h')"

text \<open>
  The broadcast case: the message at the head of the \<open>broadcast\<close> channel is received
  and offered to every client. With nothing queued the case is not ready.
\<close>

definition Run_broadcast :: "nat list \<Rightarrow> WebSocketHub \<Rightarrow> panic + WebSocketHub" where
  "Run_broadcast order h =
     (case buf (broadcast h) of
        [] \<Rightarrow> Inr h
      | message # queued \<Rightarrow>
          offer_all message order (h\<lparr>broadcast := (broadcast h)\<lparr>buf := queued\<rparr>\<rparr>))"

text \<open>Every client in the map has an open \<open>send\<close> channel.\<close>

definition hub_ok :: "WebSocketHub \<Rightarrow> bool" where
  "hub_ok h \<longleftrightarrow> (\<forall>c\<in>clients h. \<not> closed (send h c))"

definition is_full :: "chan \<Rightarrow> bool" where
  "is_full ch \<longleftrightarrow> \<not> length (buf ch) < cap ch"

text \<open>
  \<open>BroadcastMessage\<close>: the message is marshalled and put on the \<open>broadcast\<close> channel
  when there is room, dropped otherwise. It returns the marshalling error, if any.
\<close>

definition BroadcastMessage ::
  "env \<Rightarrow> WebSocketMessage \<Rightarrow> WebSocketHub \<Rightarrow> panic + (error option \<times> WebSocketHub)" where
  "BroadcastMessage e message h =
     (case json_Marshal e message of
        Inl err \<Rightarrow> Inr (Some err, h)
      | Inr data \<Rightarrow>
          (case try_send data (broadcast h) of
             Inl p \<Rightarrow> Inl p
           | Inr (Some ch) \<Rightarrow> Inr (None, h\<lparr>broadcast := ch\<rparr>)
           | Inr None \<Rightarrow> Inr (None, h)))"

definition BroadcastTransaction ::
  "env \<Rightarrow> TransactionMessage \<Rightarrow> WebSocketHub \<Rightarrow> panic + (error option \<times> WebSocketHub)" where
  "BroadcastTransaction e tx h =
     BroadcastMessage e \<lparr>Type = ''transaction'', Data = TransactionData tx\<rparr> h"

section \<open>The worker\<close>

definition extractCountryFromBIC :: "string \<Rightarrow> string" where
  "extractCountryFromBIC bic = (if length bic \<ge> 6 then take 2 (drop 4 bic) else ''XX'')"

definition mapStatus :: "bool \<Rightarrow> string" where
  "mapStatus valid = (if valid then ''approved'' else ''rejected'')"

text \<open>\<open>Duration.Milliseconds\<close>: integer division by a million, truncating towards zero.\<close>

definition Milliseconds :: "int \<Rightarrow> int" where
  "Milliseconds d = sgn d * (\<bar>d\<bar> div 1000000)"

text \<open>
  \<open>broadcastTransactionToWS\<close> at wall-clock time \<open>now\<close>, on the global hub. The
  result of \<open>BroadcastTransaction\<close> is discarded by the source.
\<close>

definition broadcastTransactionToWS ::
  "env \<Rightarrow> int \<Rightarrow> ValidationResult \<Rightarrow> string \<Rightarrow> WebSocketHub \<Rightarrow> panic + WebSocketHub" where
  "broadcastTransactionToWS e now result xmlData h =
     (case xml_Unmarshal e xmlData of
        Inl err \<Rightarrow> Inr h
      | Inr doc \<Rightarrow>
          (case CdtTrfTxInf (FIToFICstmrCdtTrf doc) of
             [] \<Rightarrow> Inr h
           | tx # _ \<Rightarrow>
               (let amount = (if Value (IntrBkSttlmAmt tx) \<noteq> ''''
                              then (case fmt_Sscanf_f e (Value (IntrBkSttlmAmt tx)) of
                                      Some a \<Rightarrow> a | None \<Rightarrow> 0)
                              else 0);
                    dbtrBIC = BICFI (FinInstnId (DbtrAgt tx));
                    cdtrBIC = BICFI (FinInstnId (CdtrAgt tx));
                    sourceCountry = (if Ctry (PstlAdr (Dbtr tx)) = ''''
                                     then extractCountryFromBIC dbtrBIC
                                     else Ctry (PstlAdr (Dbtr tx)));
                    destCountry = (if Ctry (PstlAdr (Cdtr tx)) = ''''
                                   then extractCountryFromBIC cdtrBIC
                                   else Ctry (PstlAdr (Cdtr tx)));
                    txMsg = \<lparr>ID = ''tx-'' @ itoa now,
                             MsgID = GroupHeader.MsgId (GrpHdr (FIToFICstmrCdtTrf doc)),
                             Source = Nm (Dbtr tx),
                             SourceCountry = sourceCountry,
                             Destination = Nm (Cdtr tx),
                             DestCountry = destCountry,
                             Amount = amount,
                             Currency = Ccy (IntrBkSttlmAmt tx),
                             Status = mapStatus (Valid result),
                             TransactionMessage.ErrorCode = ErrorCode result,
                             TransactionMessage.ErrorMsg = ErrorMsg result,
                             TransactionMessage.Timestamp = Timestamp result,
                             XML = xmlData,
                             TransactionMessage.Latency = Milliseconds (Latency result)\<rparr>
                in case BroadcastTransaction e txMsg h of
                     Inl p \<Rightarrow> Inl p
                   | Inr (_, h') \<Rightarrow> Inr h')))"

text \<open>
  What a worker shares with the rest of the consumer: the hub, the results sent on the
  \<open>results\<close> channel so far, and the two counters of processed messages.
\<close>

record Pipeline =
  wsHub :: WebSocketHub
  results :: "ValidationResult list"
  MessagesValid :: int
  MessagesInvalid :: int

text \<open>
  \<^verbatim>\<open>select { case results <- result: case <-ctx.Done(): return }\<close>: \<open>done\<close> tells
  whether the context's case is the one taken. The worker goes on to the next item
  (\<open>True\<close>) only after the send.
\<close>

definition send_result :: "bool \<Rightarrow> ValidationResult \<Rightarrow> Pipeline \<Rightarrow> Pipeline \<times> bool" where
  "send_result done result p =
     (if done then (p, False) else (p\<lparr>results := results p @ [result]\<rparr>, True))"

text \<open>
  The body of the worker's loop for one received item. \<open>clock k\<close> is the \<open>k\<close>-th
  reading of the clock while the item is processed.
\<close>

definition process_item ::
  "env \<Rightarrow> (nat \<Rightarrow> int) \<Rightarrow> bool \<Rightarrow> string \<Rightarrow> Pipeline \<Rightarrow> panic + (Pipeline \<times> bool)" where
  "process_item e clock done data p =
     (case fst (checkLiquidity e data) of
        (liquidityApproved, liquidityErrorCode, liquidityErrorMsg, _) \<Rightarrow>
          if \<not> liquidityApproved
          then (let p1 = p\<lparr>MessagesInvalid := MessagesInvalid p + 1\<rparr>;
                    result = zero_result\<lparr>Valid := False, ErrorCode := liquidityErrorCode,
                                         ErrorMsg := liquidityErrorMsg, Timestamp := clock 0\<rparr>
                in case broadcastTransactionToWS e (clock 1) result data (wsHub p1) of
                     Inl pn \<Rightarrow> Inl pn
                   | Inr h \<Rightarrow> Inr (send_result done result (p1\<lparr>wsHub := h\<rparr>)))
          else (let result = validateTransaction e (clock 0) (clock 1) (clock 2) data;
                    p1 = (if Valid result
                          then p\<lparr>MessagesValid := MessagesValid p + 1\<rparr>
                          else p\<lparr>MessagesInvalid := MessagesInvalid p + 1\<rparr>)
                in case broadcastTransactionToWS e (clock 3) result data (wsHub p1) of
                     Inl pn \<Rightarrow> Inl pn
                   | Inr h \<Rightarrow> Inr (send_result done result (p1\<lparr>wsHub := h\<rparr>))))"

text \<open>
  Three notions for the degraded liquidity check, in the words of the specification. The
  local parse that a message fails, if any, by the text that the check reports:
  malformed XML, or a first transaction whose amount is not a number. The remote call
  that a message leads to when a client is there: bank, amount and currency, for a
  message that passes both parses and has a transaction. And the result of an item when
  the check degrades: the rejection by the local parse, or else what validation says.
\<close>

definition local_parse_error :: "env \<Rightarrow> string \<Rightarrow> string option" where
  "local_parse_error e data =
     (case xml_Unmarshal e data of
        Inl err \<Rightarrow> Some ''Failed to parse XML for liquidity check''
      | Inr doc \<Rightarrow>
          (case CdtTrfTxInf (FIToFICstmrCdtTrf doc) of
             [] \<Rightarrow> None
           | tx # _ \<Rightarrow>
               (case strconv_ParseFloat e (Value (IntrBkSttlmAmt tx)) of
                  None \<Rightarrow> Some ''Failed to parse amount''
                | Some amount \<Rightarrow> None)))"

definition remote_check :: "env \<Rightarrow> string \<Rightarrow> (string \<times> real \<times> string) option" where
  "remote_check e data =
     (case xml_Unmarshal e data of
        Inl err \<Rightarrow> None
      | Inr doc \<Rightarrow>
          (case CdtTrfTxInf (FIToFICstmrCdtTrf doc) of
             [] \<Rightarrow> None
           | tx # _ \<Rightarrow>
               (case strconv_ParseFloat e (Value (IntrBkSttlmAmt tx)) of
                  None \<Rightarrow> None
                | Some amount \<Rightarrow>
                    Some (ExtractBankIDFromBIC e (BICFI (FinInstnId (DbtrAgt tx))), amount,
                          Ccy (IntrBkSttlmAmt tx)))))"

definition degraded_result :: "env \<Rightarrow> (nat \<Rightarrow> int) \<Rightarrow> string \<Rightarrow> ValidationResult" where
  "degraded_result e clock data =
     (case local_parse_error e data of
        Some msg \<Rightarrow> zero_result\<lparr>Valid := False, ErrorCode := ''LIQUIDITY_CHECK_ERROR'',
                                 ErrorMsg := msg, Timestamp := clock 0\<rparr>
      | None \<Rightarrow> validateTransaction e (clock 0) (clock 1) (clock 2) data)"

section \<open>Sample inputs\<close>

definition bank :: "string \<Rightarrow> Agent" where
  "bank bic = \<lparr>FinInstnId = \<lparr>BICFI = bic\<rparr>\<rparr>"

definition party :: "string \<Rightarrow> string \<Rightarrow> Party" where
  "party nm ctry = \<lparr>Nm = nm, PstlAdr = \<lparr>Ctry = ctry\<rparr>\<rparr>"

definition sample_tx :: TransactionInfo where
  "sample_tx =
     \<lparr>PmtId = \<lparr>InstrId = ''INSTR-1''\<rparr>,
      IntrBkSttlmAmt = \<lparr>Ccy = ''SGD'', Value = ''100.50''\<rparr>,
      IntrBkSttlmDt = ''2024-01-15'', ChrgBr = ''SHAR'',
      Dbtr = party ''DBS Bank'' ''SG'', DbtrAgt = bank ''DBSSSGSG'',
      CdtrAgt = bank ''BKKBTHBK'', Cdtr = party ''Bangkok Bank'' ''TH''\<rparr>"

definition sample_doc :: Document where
  "sample_doc =
     \<lparr>FIToFICstmrCdtTrf =
        \<lparr>GrpHdr = \<lparr>GroupHeader.MsgId = ''MSG-1'', NbOfTxs = 1, SttlmInf = \<lparr>SttlmMtd = ''CLRG''\<rparr>\<rparr>,
         CdtTrfTxInf = [sample_tx]\<rparr>\<rparr>"

text \<open>The same message with a text in place of the amount, and one without transactions.\<close>

definition bad_amount_doc :: Document where
  "bad_amount_doc =
     sample_doc\<lparr>FIToFICstmrCdtTrf := (FIToFICstmrCdtTrf sample_doc)
       \<lparr>CdtTrfTxInf := [sample_tx\<lparr>IntrBkSttlmAmt := \<lparr>Ccy = ''SGD'', Value = ''abc''\<rparr>\<rparr>]\<rparr>\<rparr>"

definition no_tx_doc :: Document where
  "no_tx_doc =
     sample_doc\<lparr>FIToFICstmrCdtTrf := (FIToFICstmrCdtTrf sample_doc)\<lparr>CdtTrfTxInf := []\<rparr>\<rparr>"

text \<open>
  A message without a message id whose second transaction has an unknown charge bearer.
\<close>

definition two_faults_doc :: Document where
  "two_faults_doc =
     \<lparr>FIToFICstmrCdtTrf =
        \<lparr>GrpHdr = \<lparr>GroupHeader.MsgId = '''', NbOfTxs = 2, SttlmInf = \<lparr>SttlmMtd = ''CLRG''\<rparr>\<rparr>,
         CdtTrfTxInf = [sample_tx, sample_tx\<lparr>ChrgBr := ''NONE''\<rparr>]\<rparr>\<rparr>"

text \<open>
  Stand-ins for the libraries on four inputs: the three documents above under short
  names, and anything else as malformed XML.
\<close>

definition sample_Unmarshal :: "string \<Rightarrow> string + Document" where
  "sample_Unmarshal data =
     (if data = ''sample'' then Inr sample_doc
      else if data = ''bad-amount'' then Inr bad_amount_doc
      else if data = ''no-tx'' then Inr no_tx_doc
      else if data = ''two-faults'' then Inr two_faults_doc
      else Inl ''EOF'')"

definition sample_ParseFloat :: "string \<Rightarrow> real option" where
  "sample_ParseFloat s = (if s = ''100.50'' then Some (201 / 2) else None)"

definition unreachable_client :: LiquidityClient where
  "unreachable_client =
     \<lparr>rpc_CheckLiquidity = (\<lambda>bankID amount currency. Inl ContextDeadlineExceeded),
      rpc_CreditBank = (\<lambda>bankID amount currency. Inl ContextDeadlineExceeded)\<rparr>"

text \<open>A client that cannot reach the service for the bank of the sample message only.\<close>

definition flaky_client :: LiquidityClient where
  "flaky_client =
     \<lparr>rpc_CheckLiquidity = (\<lambda>bankID amount currency.
        if bankID = ''DBSSSGSG'' then Inl ContextDeadlineExceeded else Inr (True, 1000, '''')),
      rpc_CreditBank = (\<lambda>bankID amount currency. Inr (True, 1000))\<rparr>"

definition sample_env :: "LiquidityClient option \<Rightarrow> env" where
  "sample_env lc =
     \<lparr>xml_Unmarshal = sample_Unmarshal, strconv_ParseFloat = sample_ParseFloat,
      fmt_Sscanf_f = sample_ParseFloat, json_Marshal = (\<lambda>m. Inr (Type m)),
      bicMap = Map.empty, liquidityClient = lc\<rparr>"

definition empty_pipeline :: Pipeline where
  "empty_pipeline =
     \<lparr>wsHub = NewWebSocketHub (\<lambda>c. make_chan 256), results = [],
      MessagesValid = 0, MessagesInvalid = 0\<rparr>"

text \<open>
  A hub with three clients: the buffers of clients 1 and 3 are empty, the buffer of
  client 2 is full.
\<close>

definition three_clients :: WebSocketHub where
  "three_clients =
     \<lparr>clients = {1, 2, 3},
      broadcast = (make_chan 256)\<lparr>buf := [''event'']\<rparr>,
      send = (\<lambda>c. if c = 2 then (make_chan 256)\<lparr>buf := replicate 256 ''old''\<rparr>
                   else make_chan 256)\<rparr>"

section \<open>The breaker while closed\<close>

lemma sint_succ32: "sint (x::int32) < 2147483647 \<Longrightarrow> sint (x + 1) = sint x + 1"
proof -
  assume a: "sint x < 2147483647"
  have lo: "- (2 ^ 31) \<le> sint x" using sint_ge [of x] by simp
  have "sint (x + 1) = signed_take_bit 31 (sint x + 1)"
    by (simp add: sint_word_ariths)
  also have "\<dots> = sint x + 1"
    using a lo by (intro signed_take_bit_int_eq_self) simp_all
  finally show ?thesis .
qed

lemma sint_le_max32: "sint (x::int32) \<le> 2147483647"
  using sint_lt [of x] by simp

lemma consecutive_failures_snoc_Failure:
  "consecutive_failures (os @ [Failure t]) = Suc (consecutive_failures os)"
  by (simp add: consecutive_failures_def)

lemma consecutive_failures_snoc_Success: "consecutive_failures (os @ [Success]) = 0"
  by (simp add: consecutive_failures_def)

lemma record_all_snoc: "record_all cb (os @ [x]) = record_outcome (record_all cb os) x"
  by (simp add: record_all_def)

lemma maxFailures_record_outcome: "maxFailures (record_outcome cb x) = maxFailures cb"
  by (cases x)
     (auto simp: recordFailure_def recordSuccess_def CompareAndSwapState_def Let_def
           split: CircuitState.splits)

lemma open_record_outcome: "state cb = StateOpen \<Longrightarrow> state (record_outcome cb x) = StateOpen"
  by (cases x) (auto simp: recordFailure_def recordSuccess_def Let_def)

lemma closed_recordSuccess:
  "state cb = StateClosed \<Longrightarrow> recordSuccess cb = cb\<lparr>failures := 0\<rparr>"
  by (simp add: recordSuccess_def)

lemma closed_recordFailure:
  "state cb = StateClosed \<Longrightarrow>
   recordFailure now cb =
     cb\<lparr>failures := failures cb + 1, lastFailureTime := now,
        state := (if sint (maxFailures cb) \<le> sint (failures cb + 1)
                  then StateOpen else StateClosed)\<rparr>"
  by (simp add: recordFailure_def CompareAndSwapState_def Let_def)

lemma ex_prefix_snoc:
  "(\<exists>n\<le>length (os @ [x]). P (take n (os @ [x]))) \<longleftrightarrow>
   (\<exists>n\<le>length os. P (take n os)) \<or> P (os @ [x])"
proof
  assume "\<exists>n\<le>length (os @ [x]). P (take n (os @ [x]))"
  then obtain n where n: "n \<le> Suc (length os)" "P (take n (os @ [x]))" by auto
  show "(\<exists>n\<le>length os. P (take n os)) \<or> P (os @ [x])"
  proof (cases "n \<le> length os")
    case True with n show ?thesis by auto
  next
    case False with n have "n = Suc (length os)" by simp
    with n show ?thesis by simp
  qed
next
  assume "(\<exists>n\<le>length os. P (take n os)) \<or> P (os @ [x])"
  then show "\<exists>n\<le>length (os @ [x]). P (take n (os @ [x]))"
  proof
    assume "\<exists>n\<le>length os. P (take n os)"
    then obtain n where "n \<le> length os" "P (take n os)" by auto
    then show ?thesis by (intro exI [of _ n]) simp
  next
    assume "P (os @ [x])"
    then show ?thesis by (intro exI [of _ "Suc (length os)"]) simp
  qed
qed

text \<open>
  The closed state is entered only by \<open>recordSuccess\<close> on a probing breaker, and then
  with the failure counter at zero.
\<close>

lemma closed_only_entered_cleared:
  "state cb \<noteq> StateClosed \<Longrightarrow>
   state (recordFailure now cb) \<noteq> StateClosed \<and>
   state (snd (canExecute now cb)) \<noteq> StateClosed \<and>
   (state (recordSuccess cb) = StateClosed \<longrightarrow> failures (recordSuccess cb) = 0)"
  by (cases "state cb")
     (auto simp: recordFailure_def recordSuccess_def canExecute_def canExecute_from_def
                 CompareAndSwapState_def Let_def split: if_splits)

text \<open>
  The invariant of a run that starts closed with a cleared counter: until some prefix
  reaches the threshold the breaker is closed and its counter is the number of
  consecutive failures (which never overflows, being below the threshold); from then on
  it is open.
\<close>

lemma closed_run_invariant:
  assumes c: "state cb = StateClosed" and z: "failures cb = 0"
  shows "maxFailures (record_all cb os) = maxFailures cb \<and>
         (if \<exists>n\<le>length os. threshold_reached cb (take n os)
          then state (record_all cb os) = StateOpen
          else state (record_all cb os) = StateClosed \<and>
               sint (failures (record_all cb os)) = int (consecutive_failures os))"
proof (induction os rule: rev_induct)
  case Nil
  show ?case using c z
    by (simp add: record_all_def threshold_reached_def consecutive_failures_def)
next
  case (snoc x os)
  let ?cb = "record_all cb os"
  have mf: "maxFailures ?cb = maxFailures cb" using snoc by simp
  have mf': "maxFailures (record_all cb (os @ [x])) = maxFailures cb"
    by (simp add: record_all_snoc maxFailures_record_outcome mf)
  show ?case
  proof (cases "\<exists>n\<le>length os. threshold_reached cb (take n os)")
    case True
    with snoc have "state ?cb = StateOpen" by simp
    then have "state (record_all cb (os @ [x])) = StateOpen"
      by (simp add: record_all_snoc open_record_outcome)
    with True mf' show ?thesis by (simp only: ex_prefix_snoc) simp
  next
    case False
    with snoc have st: "state ?cb = StateClosed"
      and fs: "sint (failures ?cb) = int (consecutive_failures os)" by simp_all
    from False have nr: "\<not> threshold_reached cb os"
      by (auto dest: spec [of _ "length os"])
    show ?thesis
    proof (cases x)
      case Success
      have "\<not> threshold_reached cb (os @ [x])"
        by (simp add: threshold_reached_def Success consecutive_failures_snoc_Success)
      with False have none:
        "\<not> (\<exists>n\<le>length (os @ [x]). threshold_reached cb (take n (os @ [x])))"
        by (simp only: ex_prefix_snoc) simp
      have "record_all cb (os @ [x]) = ?cb\<lparr>failures := 0\<rparr>"
        by (simp add: record_all_snoc Success closed_recordSuccess st)
      with none st mf' show ?thesis
        by (simp add: Success consecutive_failures_snoc_Success)
    next
      case (Failure t)
      have small: "sint (failures ?cb) < 2147483647"
      proof (cases "consecutive_failures os = 0")
        case True with fs show ?thesis by simp
      next
        case False
        with nr have "int (consecutive_failures os) < sint (maxFailures cb)"
          by (simp add: threshold_reached_def)
        with fs sint_le_max32 [of "maxFailures cb"] show ?thesis by simp
      qed
      have fs': "sint (failures ?cb + 1) = int (consecutive_failures (os @ [x]))"
        by (simp add: sint_succ32 [OF small] fs Failure consecutive_failures_snoc_Failure)
      have tr: "threshold_reached cb (os @ [x]) \<longleftrightarrow>
                sint (maxFailures ?cb) \<le> sint (failures ?cb + 1)"
        by (simp add: threshold_reached_def fs' mf)
           (simp add: Failure consecutive_failures_snoc_Failure)
      have ex: "(\<exists>n\<le>length (os @ [x]). threshold_reached cb (take n (os @ [x]))) \<longleftrightarrow>
                threshold_reached cb (os @ [x])"
        using False by (simp only: ex_prefix_snoc) simp
      have step: "record_all cb (os @ [x]) = recordFailure t ?cb"
        by (simp add: record_all_snoc Failure)
      show ?thesis
        unfolding ex tr step closed_recordFailure [OF st]
        using fs' mf by simp
    qed
  qed
qed

text \<open>
  C1. Start from a breaker that is closed with its failure counter at zero (as
  \<open>NewCircuitBreaker\<close> returns it, and as every transition into the closed state leaves
  it) and report any sequence of failures and successes to it. After the sequence the
  breaker is open exactly if, at some point of the sequence, the number of consecutive
  failures (counted since the last success) had reached \<open>maxFailures\<close>; otherwise it
  is still closed. So it opens at the first failure that brings the count to the
  threshold and at no failure before it.
\<close>

theorem breaker_opens_exactly_at_threshold:
  assumes "state cb = StateClosed" and "failures cb = 0"
  shows "state (record_all cb os) =
           (if \<exists>n\<le>length os. threshold_reached cb (take n os) then StateOpen else StateClosed)"
  using closed_run_invariant [OF assms, of os] by (simp split: if_splits)

theorem breaker_opens_exactly_at_threshold_witness:
  "state (NewCircuitBreaker ''liquidity'' 3 30 2) = StateClosed \<and>
   failures (NewCircuitBreaker ''liquidity'' 3 30 2) = 0 \<and>
   state (record_all (NewCircuitBreaker ''liquidity'' 3 30 2)
            [Failure 1, Failure 2, Success, Failure 3, Failure 4]) = StateClosed \<and>
   threshold_reached (NewCircuitBreaker ''liquidity'' 3 30 2)
     (take 6 [Failure 1, Failure 2, Success, Failure 3, Failure 4, Failure 5]) \<and>
   state (record_all (NewCircuitBreaker ''liquidity'' 3 30 2)
            [Failure 1, Failure 2, Success, Failure 3, Failure 4, Failure 5]) = StateOpen"
proof -
  let ?cb = "NewCircuitBreaker ''liquidity'' 3 30 2"
  have c: "state ?cb = StateClosed" and z: "failures ?cb = 0"
    by (simp_all add: NewCircuitBreaker_def)
  have r: "threshold_reached ?cb
             (take 6 [Failure 1, Failure 2, Success, Failure 3, Failure 4, Failure 5])"
    by (simp add: threshold_reached_def consecutive_failures_def NewCircuitBreaker_def)
  have no: "\<not> (\<exists>n\<le>length [Failure 1, Failure 2, Success, Failure 3, Failure 4].
                  threshold_reached ?cb
                    (take n [Failure 1, Failure 2, Success, Failure 3, Failure 4]))"
    by (simp add: threshold_reached_def consecutive_failures_def NewCircuitBreaker_def
                  take_Cons' le_Suc_eq numeral_eq_Suc)
  have yes: "\<exists>n\<le>length [Failure 1, Failure 2, Success, Failure 3, Failure 4, Failure 5].
               threshold_reached ?cb
                 (take n [Failure 1, Failure 2, Success, Failure 3, Failure 4, Failure 5])"
    using r by (intro exI [of _ 6]) simp
  show ?thesis
    using breaker_opens_exactly_at_threshold
            [OF c z, of "[Failure 1, Failure 2, Success, Failure 3, Failure 4]"]
          breaker_opens_exactly_at_threshold
            [OF c z, of "[Failure 1, Failure 2, Success, Failure 3, Failure 4, Failure 5]"]
          c z r no yes
    by (simp only: if_True if_False simp_thms)
qed

section \<open>The breaker while open and while probing\<close>

lemma open_canExecute_waiting:
  "state cb = StateOpen \<Longrightarrow> \<not> Since now (lastFailureTime cb) > resetTimeout cb \<Longrightarrow>
   canExecute now cb = (False, cb)"
  by (simp add: canExecute_def canExecute_from_def)

lemma open_canExecute_elapsed:
  "state cb = StateOpen \<Longrightarrow> Since now (lastFailureTime cb) > resetTimeout cb \<Longrightarrow>
   canExecute now cb = (True, cb\<lparr>state := StateHalfOpen, halfOpenSuccesses := 0\<rparr>)"
  by (simp add: canExecute_def canExecute_from_def CompareAndSwapState_def)

lemma stale_canExecute_from:
  "state cb \<noteq> StateOpen \<Longrightarrow> snd (canExecute_from StateOpen now cb) = cb"
  by (simp add: canExecute_from_def CompareAndSwapState_def)

lemma halfOpen_recordFailure:
  "state cb = StateHalfOpen \<Longrightarrow>
   recordFailure now cb = cb\<lparr>failures := 0, lastFailureTime := now, state := StateOpen\<rparr>"
  by (simp add: recordFailure_def CompareAndSwapState_def Let_def)

lemma opened_breaker_eq:
  "opened_breaker =
     \<lparr>name = ''liquidity'', maxFailures = 1, resetTimeout = 30, halfOpenSuccess = 2,
      state = StateOpen, failures = 1, lastFailureTime = 10, halfOpenSuccesses = 0\<rparr>"
  by (simp add: opened_breaker_def NewCircuitBreaker_def recordFailure_def
                CompareAndSwapState_def Let_def)

lemma probing_breaker_eq:
  "probing_breaker =
     \<lparr>name = ''liquidity'', maxFailures = 1, resetTimeout = 30, halfOpenSuccess = 2,
      state = StateHalfOpen, failures = 1, lastFailureTime = 10, halfOpenSuccesses = 1\<rparr>"
  by (simp add: probing_breaker_def opened_breaker_eq canExecute_def canExecute_from_def
                CompareAndSwapState_def Since_def recordSuccess_def Let_def)

text \<open>
  C3. On an open breaker, \<open>canExecute\<close> answers false and changes nothing as long as the
  time since the last recorded failure does not exceed \<open>resetTimeout\<close>, at every such
  call. Once it exceeds \<open>resetTimeout\<close>, the call moves the breaker to half-open, sets
  the probe-success counter to zero and answers true. The move is made by a
  compare-and-swap from open: a caller that had loaded the state while it was open, and
  reaches the swap when the breaker is already half-open, changes neither the state nor
  the counter (whatever probes have been counted by then), so the move happens once.
\<close>

theorem open_breaker_canExecute:
  assumes "state cb = StateOpen"
  shows "canExecute now cb =
           (if Since now (lastFailureTime cb) > resetTimeout cb
            then (True, cb\<lparr>state := StateHalfOpen, halfOpenSuccesses := 0\<rparr>)
            else (False, cb)) \<and>
         snd (canExecute_from StateOpen later (cb\<lparr>state := StateHalfOpen, halfOpenSuccesses := k\<rparr>))
           = cb\<lparr>state := StateHalfOpen, halfOpenSuccesses := k\<rparr>"
proof
  show "canExecute now cb =
          (if Since now (lastFailureTime cb) > resetTimeout cb
           then (True, cb\<lparr>state := StateHalfOpen, halfOpenSuccesses := 0\<rparr>)
           else (False, cb))"
    using open_canExecute_elapsed [OF assms, of now] open_canExecute_waiting [OF assms, of now]
    by (cases "Since now (lastFailureTime cb) > resetTimeout cb") simp_all
  show "snd (canExecute_from StateOpen later (cb\<lparr>state := StateHalfOpen, halfOpenSuccesses := k\<rparr>))
          = cb\<lparr>state := StateHalfOpen, halfOpenSuccesses := k\<rparr>"
    by (rule stale_canExecute_from) simp
qed

theorem open_breaker_canExecute_witness:
  "state opened_breaker = StateOpen \<and>
   canExecute 40 opened_breaker = (False, opened_breaker) \<and>
   canExecute 41 opened_breaker =
     (True, opened_breaker\<lparr>state := StateHalfOpen, halfOpenSuccesses := 0\<rparr>)"
proof -
  have o: "state opened_breaker = StateOpen" by (simp add: opened_breaker_eq)
  have t: "lastFailureTime opened_breaker = 10" "resetTimeout opened_breaker = 30"
    by (simp_all add: opened_breaker_eq)
  show ?thesis
    using open_breaker_canExecute [OF o, of 40] open_breaker_canExecute [OF o, of 41] o
    by (simp add: t Since_def)
qed

text \<open>
  C4, as the code has it. On a half-open breaker a single \<open>recordFailure\<close> moves the
  state back to open and sets the failure counter to zero; the probe-success counter
  keeps its value. That counter is set to zero by the \<open>canExecute\<close> call that next moves
  the breaker from open to half-open.
\<close>

theorem halfOpen_failure_reopens:
  assumes "state cb = StateHalfOpen"
  shows "state (recordFailure now cb) = StateOpen \<and>
         failures (recordFailure now cb) = 0 \<and>
         halfOpenSuccesses (recordFailure now cb) = halfOpenSuccesses cb \<and>
         (Since later now > resetTimeout cb \<longrightarrow>
            fst (canExecute later (recordFailure now cb)) \<and>
            state (snd (canExecute later (recordFailure now cb))) = StateHalfOpen \<and>
            halfOpenSuccesses (snd (canExecute later (recordFailure now cb))) = 0)"
proof -
  let ?r = "recordFailure now cb"
  have r: "?r = cb\<lparr>failures := 0, lastFailureTime := now, state := StateOpen\<rparr>"
    by (rule halfOpen_recordFailure [OF assms])
  have o: "state ?r = StateOpen" by (simp add: r)
  have "Since later now > resetTimeout cb \<longrightarrow>
          canExecute later ?r = (True, ?r\<lparr>state := StateHalfOpen, halfOpenSuccesses := 0\<rparr>)"
    using open_canExecute_elapsed [OF o, of later] by (simp add: r)
  then show ?thesis by (simp add: r)
qed

theorem halfOpen_failure_reopens_witness:
  "state probing_breaker = StateHalfOpen \<and>
   Since 300 200 > resetTimeout probing_breaker \<and>
   state (recordFailure 200 probing_breaker) = StateOpen \<and>
   failures (recordFailure 200 probing_breaker) = 0 \<and>
   halfOpenSuccesses (recordFailure 200 probing_breaker) = 1 \<and>
   halfOpenSuccesses (snd (canExecute 300 (recordFailure 200 probing_breaker))) = 0"
proof -
  have h: "state probing_breaker = StateHalfOpen" by (simp add: probing_breaker_eq)
  have t: "Since 300 200 > resetTimeout probing_breaker"
    by (simp add: probing_breaker_eq Since_def)
  have k: "halfOpenSuccesses probing_breaker = 1" by (simp add: probing_breaker_eq)
  show ?thesis
    using halfOpen_failure_reopens [OF h, of 200 300] h t k by simp
qed

text \<open>
  C4 as the specification words it fails on the probing breaker: after the failure the
  probe-success counter still holds the one probe counted before.
\<close>

theorem halfOpen_failure_keeps_probe_count:
  "state probing_breaker = StateHalfOpen \<and>
   \<not> (state (recordFailure 200 probing_breaker) = StateOpen \<and>
      halfOpenSuccesses (recordFailure 200 probing_breaker) = 0 \<and>
      failures (recordFailure 200 probing_breaker) = 0)"
  by (simp add: probing_breaker_eq recordFailure_def CompareAndSwapState_def Let_def)

section \<open>Retry with backoff: the loop, case by case\<close>

lemma RetryLoop_exhausted:
  "\<not> attempt \<le> MaxAttempts config \<Longrightarrow>
   RetryLoop env config attempt delay lastErr cb tr =
     (Some (max_retries_error config lastErr), cb, tr)"
  by (subst RetryLoop.simps) simp

lemma RetryLoop_refused:
  "attempt \<le> MaxAttempts config \<Longrightarrow> \<not> fst (breaker_check env attempt cb) \<Longrightarrow>
   RetryLoop env config attempt delay lastErr cb tr =
     (Some circuit_open_error, snd (breaker_check env attempt cb), tr)"
  by (subst RetryLoop.simps) simp

lemma RetryLoop_success:
  "attempt \<le> MaxAttempts config \<Longrightarrow> fst (breaker_check env attempt cb) \<Longrightarrow>
   fn env attempt = None \<Longrightarrow>
   RetryLoop env config attempt delay lastErr cb tr =
     (None, map_option recordSuccess (snd (breaker_check env attempt cb)), tr @ [Invoked attempt])"
  by (subst RetryLoop.simps) simp

lemma RetryLoop_last_failure:
  "attempt = MaxAttempts config \<Longrightarrow> fst (breaker_check env attempt cb) \<Longrightarrow>
   fn env attempt = Some err \<Longrightarrow>
   RetryLoop env config attempt delay lastErr cb tr =
     (Some (max_retries_error config (Some err)),
      map_option (recordFailure (fail_time env attempt)) (snd (breaker_check env attempt cb)),
      tr @ [Invoked attempt])"
  by (subst RetryLoop.simps) simp

lemma RetryLoop_cancelled:
  "attempt < MaxAttempts config \<Longrightarrow> fst (breaker_check env attempt cb) \<Longrightarrow>
   fn env attempt = Some err \<Longrightarrow> ctx_done env attempt = Some cerr \<Longrightarrow>
   RetryLoop env config attempt delay lastErr cb tr =
     (Some (Errorf RetryCancelled (Some cerr)),
      map_option (recordFailure (fail_time env attempt)) (snd (breaker_check env attempt cb)),
      tr @ [Invoked attempt])"
  by (subst RetryLoop.simps) simp

lemma RetryLoop_retry:
  "attempt < MaxAttempts config \<Longrightarrow> fst (breaker_check env attempt cb) \<Longrightarrow>
   fn env attempt = Some err \<Longrightarrow> ctx_done env attempt = None \<Longrightarrow>
   RetryLoop env config attempt delay lastErr cb tr =
     RetryLoop env config (attempt + 1) (next_delay env config delay) (Some err)
       (map_option (recordFailure (fail_time env attempt)) (snd (breaker_check env attempt cb)))
       (tr @ [Invoked attempt, Slept delay])"
  by (subst RetryLoop.simps) simp

lemma breaker_check_None: "breaker_check env attempt None = (True, None)"
  by (simp add: breaker_check_def)

lemma canExecute_denied_unchanged: "\<not> fst (canExecute now b) \<Longrightarrow> snd (canExecute now b) = b"
  by (cases "state b")
     (auto simp: canExecute_def canExecute_from_def CompareAndSwapState_def split: if_splits)

text \<open>
  A call that the breaker does not refuse returns the same error and makes the same
  invocations and waits as the call without a breaker.
\<close>

lemma RetryLoop_breaker_irrelevant:
  "\<not> refused (RetryLoop env config attempt delay lastErr cb tr) \<Longrightarrow>
   outcome_of (RetryLoop env config attempt delay lastErr cb tr) =
   outcome_of (RetryLoop env config attempt delay lastErr None tr)"
proof (induction env config attempt delay lastErr cb tr rule: RetryLoop.induct)
  case (1 env config attempt delay lastErr cb tr)
  show ?case
  proof (cases "attempt \<le> MaxAttempts config")
    case False
    then show ?thesis by (simp add: RetryLoop_exhausted outcome_of_def)
  next
    case le: True
    show ?thesis
    proof (cases "fst (breaker_check env attempt cb)")
      case False
      with le "1.prems" show ?thesis
        by (simp add: RetryLoop_refused refused_def)
    next
      case ok: True
      show ?thesis
      proof (cases "fn env attempt")
        case None
        with le ok show ?thesis
          by (simp add: RetryLoop_success breaker_check_None outcome_of_def)
      next
        case (Some err)
        show ?thesis
        proof (cases "attempt < MaxAttempts config")
          case False
          with le have "attempt = MaxAttempts config" by simp
          with ok Some show ?thesis
            by (simp add: RetryLoop_last_failure breaker_check_None outcome_of_def)
        next
          case lt: True
          show ?thesis
          proof (cases "ctx_done env attempt")
            case (Some cerr)
            with lt ok \<open>fn env attempt = Some err\<close> show ?thesis
              by (simp add: RetryLoop_cancelled breaker_check_None outcome_of_def)
          next
            case None
            let ?cb = "map_option (recordFailure (fail_time env attempt))
                         (snd (breaker_check env attempt cb))"
            let ?tr = "tr @ [Invoked attempt, Slept delay]"
            have step: "RetryLoop env config attempt delay lastErr cb tr =
                        RetryLoop env config (attempt + 1) (next_delay env config delay) (Some err) ?cb ?tr"
              by (rule RetryLoop_retry [OF lt ok \<open>fn env attempt = Some err\<close> None])
            have step0: "RetryLoop env config attempt delay lastErr None tr =
                        RetryLoop env config (attempt + 1) (next_delay env config delay) (Some err) None ?tr"
              using RetryLoop_retry [OF lt _ \<open>fn env attempt = Some err\<close> None, of None delay lastErr tr]
              by (simp add: breaker_check_None)
            have "\<not> refused (RetryLoop env config (attempt + 1) (next_delay env config delay)
                               (Some err) ?cb ?tr)"
              using "1.prems" step by simp
            then have "outcome_of (RetryLoop env config (attempt + 1) (next_delay env config delay)
                                     (Some err) ?cb ?tr)
                     = outcome_of (RetryLoop env config (attempt + 1) (next_delay env config delay)
                                     (Some err) None ?tr)"
              using "1.IH" [OF le _ \<open>fn env attempt = Some err\<close> _ None] ok lt by simp
            with step step0 show ?thesis by simp
          qed
        qed
      qed
    qed
  qed
qed

section \<open>Retry with backoff: an operation that always fails\<close>

lemma failing_loop_None:
  assumes fails: "\<forall>k. 1 \<le> k \<and> k \<le> MaxAttempts config \<longrightarrow> fn env k \<noteq> None"
      and waits: "\<forall>k. 1 \<le> k \<and> k < MaxAttempts config \<longrightarrow> ctx_done env k = None"
  shows "1 \<le> attempt \<Longrightarrow> attempt \<le> MaxAttempts config \<Longrightarrow> k = nat (MaxAttempts config - attempt) \<Longrightarrow>
         RetryLoop env config attempt delay lastErr None tr =
           (Some (max_retries_error config (fn env (MaxAttempts config))), None,
            tr @ tail_events env config attempt delay k)"
proof (induction k arbitrary: attempt delay lastErr tr)
  case 0
  then have eq: "attempt = MaxAttempts config" by simp
  from fails "0.prems" obtain err where err: "fn env attempt = Some err" by auto
  show ?case
    using RetryLoop_last_failure [OF eq _ err, of None delay lastErr tr] err eq
    by (simp add: breaker_check_None)
next
  case (Suc k)
  then have lt: "attempt < MaxAttempts config" by simp
  from fails Suc.prems obtain err where err: "fn env attempt = Some err" by auto
  from waits Suc.prems lt have nc: "ctx_done env attempt = None" by simp
  have step: "RetryLoop env config attempt delay lastErr None tr =
              RetryLoop env config (attempt + 1) (next_delay env config delay) (Some err) None
                (tr @ [Invoked attempt, Slept delay])"
    using RetryLoop_retry [OF lt _ err nc, of None delay lastErr tr]
    by (simp add: breaker_check_None)
  have "RetryLoop env config (attempt + 1) (next_delay env config delay) (Some err) None
          (tr @ [Invoked attempt, Slept delay]) =
        (Some (max_retries_error config (fn env (MaxAttempts config))), None,
         (tr @ [Invoked attempt, Slept delay])
           @ tail_events env config (attempt + 1) (next_delay env config delay) k)"
    using Suc.prems lt by (intro Suc.IH) simp_all
  with step show ?case by simp
qed

lemma tail_events_eq:
  "tail_events env config attempt delay k =
     concat (map (\<lambda>j. [Invoked (attempt + int j), Slept ((next_delay env config ^^ j) delay)]) [0 ..< k])
     @ [Invoked (attempt + int k)]"
proof (induction k arbitrary: attempt delay)
  case 0
  show ?case by simp
next
  case (Suc k)
  have "[0 ..< Suc k] = 0 # map Suc [0 ..< k]"
    by (simp add: upt_conv_Cons map_Suc_upt del: upt_Suc)
  then show ?case
    by (simp add: Suc.IH comp_def funpow_swap1 algebra_simps del: upt_Suc)
qed

lemma failing_run_events_eq:
  "1 \<le> MaxAttempts config \<Longrightarrow>
   failing_run_events env config =
     tail_events env config 1 (InitialDelay config) (nat (MaxAttempts config - 1))"
proof -
  assume "1 \<le> MaxAttempts config"
  then have n: "nat (MaxAttempts config) - 1 = nat (MaxAttempts config - 1)"
    and m: "1 + int (nat (MaxAttempts config - 1)) = MaxAttempts config"
    and ge: "\<not> MaxAttempts config < 1"
    by simp_all
  show ?thesis
    unfolding failing_run_events_def tail_events_eq nth_delay_def n m if_not_P [OF ge]
    by (simp add: add.commute)
qed

lemma invocations_tail_events: "length (filter is_Invoked (tail_events env config a d k)) = Suc k"
  by (induction k arbitrary: a d) simp_all

lemma sleeps_tail_events:
  "sleeps (tail_events env config a d k) = map (\<lambda>j. (next_delay env config ^^ j) d) [0 ..< k]"
proof (induction k arbitrary: a d)
  case 0
  show ?case by simp
next
  case (Suc k)
  have "[0 ..< Suc k] = 0 # map Suc [0 ..< k]"
    by (simp add: upt_conv_Cons map_Suc_upt del: upt_Suc)
  then show ?case
    by (simp add: Suc.IH comp_def funpow_swap1 del: upt_Suc)
qed

lemma nth_delay_Suc:
  "nth_delay env config (Suc k) =
     min (Duration_of_float64 (unrepresentable env)
            (fmul (float64_of_int (nth_delay env config k)) (Multiplier config)))
         (MaxDelay config)"
  by (simp add: nth_delay_def next_delay_def Let_def min_def)

lemma RetryLoop_None_breaker:
  "fst (snd (RetryLoop env config attempt delay lastErr None tr)) = None"
proof (induction env config attempt delay lastErr "None :: CircuitBreaker option" tr
       rule: RetryLoop.induct)
  case (1 env config attempt delay lastErr tr)
  show ?case
    by (subst RetryLoop.simps) (simp add: breaker_check_None "1.hyps" split: option.splits)
qed

text \<open>The delays of the sample configurations, step by step.\<close>

lemma third_multiplier: "round64 (1 / 3) = Finite (6004799503160661 / 18014398509481984)"
  by code_simp

lemma huge_multiplier: "round64 (10 ^ 19) = Finite 10000000000000000000"
  by code_simp

lemma default_delays:
  "next_delay always_failing DefaultRetryConfig 50000000 = 100000000"
  "next_delay always_failing DefaultRetryConfig 100000000 = 200000000"
  by code_simp+

lemma long_delays:
  "next_delay always_failing long_delay_config 9007199254740993 = 9007199254740992"
  "next_delay always_failing long_delay_config 9007199254740992 = 9007199254740992"
  by code_simp+

lemma third_delays:
  "next_delay always_failing third_config 3 = 1"
  "next_delay always_failing third_config 1 = 0"
  unfolding third_config_def third_multiplier by code_simp+

lemma huge_delays:
  "next_delay always_failing huge_multiplier_config 50000000 = - 9223372036854775808"
  "next_delay always_failing huge_multiplier_config (- 9223372036854775808)
     = - 9223372036854775808"
  unfolding huge_multiplier_config_def huge_multiplier by code_simp+

lemma always_failing_facts:
  "fn always_failing k = Some (OpError ''unavailable'')"
  "ctx_done always_failing k = None"
  "fn cancelled_waits k = Some (OpError ''unavailable'')"
  "ctx_done cancelled_waits k = Some ContextCanceled"
  by (simp_all add: always_failing_def cancelled_waits_def)

lemma config_facts:
  "MaxAttempts DefaultRetryConfig = 3" "InitialDelay DefaultRetryConfig = 50000000"
  "MaxAttempts long_delay_config = 3" "InitialDelay long_delay_config = 9007199254740993"
  "MaxAttempts third_config = 3" "InitialDelay third_config = 3"
  "MaxAttempts huge_multiplier_config = 3" "InitialDelay huge_multiplier_config = 50000000"
  by (simp_all add: DefaultRetryConfig_def long_delay_config_def third_config_def
                    huge_multiplier_config_def)

lemma config_multipliers:
  "Multiplier long_delay_config = Finite 1"
  "MaxDelay long_delay_config = 4611686018427387904"
  "Multiplier third_config = Finite (6004799503160661 / 18014398509481984)"
  "Multiplier huge_multiplier_config = Finite 10000000000000000000"
  "MaxDelay huge_multiplier_config = 500000000"
  unfolding long_delay_config_def third_config_def third_multiplier
            huge_multiplier_config_def huge_multiplier
  by simp_all

lemma run_default:
  "RetryWithBackoff always_failing DefaultRetryConfig None =
     (Some (Errorf (MaxRetriesExceeded 3) (Some (OpError ''unavailable''))), None,
      [Invoked 1, Slept 50000000, Invoked 2, Slept 100000000, Invoked 3])"
  by (simp add: RetryWithBackoff_def RetryLoop.simps breaker_check_None always_failing_facts
                config_facts default_delays max_retries_error_def)

lemma run_long:
  "snd (snd (RetryWithBackoff always_failing long_delay_config None)) =
     [Invoked 1, Slept 9007199254740993, Invoked 2, Slept 9007199254740992, Invoked 3]"
  by (simp add: RetryWithBackoff_def RetryLoop.simps breaker_check_None always_failing_facts
                config_facts long_delays max_retries_error_def)

lemma run_third:
  "snd (snd (RetryWithBackoff always_failing third_config None)) =
     [Invoked 1, Slept 3, Invoked 2, Slept 1, Invoked 3]"
  by (simp add: RetryWithBackoff_def RetryLoop.simps breaker_check_None always_failing_facts
                config_facts third_delays max_retries_error_def)

lemma run_huge:
  "snd (snd (RetryWithBackoff always_failing huge_multiplier_config None)) =
     [Invoked 1, Slept 50000000, Invoked 2, Slept (- 9223372036854775808), Invoked 3]"
  by (simp add: RetryWithBackoff_def RetryLoop.simps breaker_check_None always_failing_facts
                config_facts huge_delays max_retries_error_def)

lemma run_cancelled:
  "RetryWithBackoff cancelled_waits DefaultRetryConfig None =
     (Some (Errorf RetryCancelled (Some ContextCanceled)), None, [Invoked 1])"
  by (simp add: RetryWithBackoff_def RetryLoop.simps breaker_check_None always_failing_facts
                config_facts)

lemma doubled_50ms:
  "Duration_of_float64 u (fmul (float64_of_int 50000000) (Finite 2)) = 100000000"
  by code_simp

lemma default_sleeps:
  assumes s: "sleeps (failing_run_events env config) =
                map (nth_delay env config) [0 ..< nat (MaxAttempts config) - 1]"
  shows "MaxAttempts config = 3 \<and> InitialDelay config = 50000000 \<and>
         MaxDelay config = 500000000 \<and> Multiplier config = Finite 2 \<longrightarrow>
         sleeps (failing_run_events env config) = [50000000, 100000000]"
proof (intro impI, elim conjE)
  assume m: "MaxAttempts config = 3" and i: "InitialDelay config = 50000000"
    and x: "MaxDelay config = 500000000" and f: "Multiplier config = Finite 2"
  have u: "[0 ..< nat (MaxAttempts config) - 1] = [0, Suc 0]"
    by (simp add: m upt_rec)
  have d0: "nth_delay env config 0 = 50000000"
    by (simp add: nth_delay_def i)
  have d1: "nth_delay env config (Suc 0) = 100000000"
    unfolding nth_delay_Suc d0 f x doubled_50ms by simp
  show "sleeps (failing_run_events env config) = [50000000, 100000000]"
    unfolding s u by (simp add: d0 d1)
qed

text \<open>
  C2, as the code has it. Let the operation fail on each of the attempts 1 to
  \<open>MaxAttempts\<close>, let the context not be done during any of the waits, and let there be
  no breaker or a breaker that never refuses the call. Then \<open>RetryWithBackoff\<close> returns
  the max-retries error wrapping the error of the last attempt (no error when
  \<open>MaxAttempts\<close> is below 1 and there is no attempt), and what it does is exactly:
  invoke, wait, invoke, wait, ..., invoke, with \<open>MaxAttempts\<close> invocations, and between
  them waits whose lengths start at \<open>InitialDelay\<close> and are each the minimum of
  \<open>MaxDelay\<close> and \<open>d\<close>, where \<open>d\<close> is the previous length as a \<open>float64\<close>, times
  \<open>Multiplier\<close> in \<open>float64\<close> arithmetic, converted to an \<open>int64\<close> of nanoseconds.
  With three attempts, a first delay of 50ms, the multiplier 2.0 and a cap of 500ms the
  waits are 50ms and 100ms.
\<close>

theorem retry_exhausts_attempts:
  assumes fails: "\<forall>k. 1 \<le> k \<and> k \<le> MaxAttempts config \<longrightarrow> fn env k \<noteq> None"
      and waits: "\<forall>k. 1 \<le> k \<and> k < MaxAttempts config \<longrightarrow> ctx_done env k = None"
      and allowed: "cb = None \<or> \<not> refused (RetryWithBackoff env config cb)"
  shows "outcome_of (RetryWithBackoff env config cb) =
           (Some (Errorf (MaxRetriesExceeded (MaxAttempts config))
                    (if 1 \<le> MaxAttempts config then fn env (MaxAttempts config) else None)),
            failing_run_events env config) \<and>
         length (filter is_Invoked (failing_run_events env config)) = nat (MaxAttempts config) \<and>
         sleeps (failing_run_events env config) =
           map (nth_delay env config) [0 ..< nat (MaxAttempts config) - 1] \<and>
         nth_delay env config 0 = InitialDelay config \<and>
         (\<forall>k. nth_delay env config (Suc k) =
                min (Duration_of_float64 (unrepresentable env)
                       (fmul (float64_of_int (nth_delay env config k)) (Multiplier config)))
                    (MaxDelay config)) \<and>
         (MaxAttempts config = 3 \<and> InitialDelay config = 50000000 \<and>
          MaxDelay config = 500000000 \<and> Multiplier config = Finite 2 \<longrightarrow>
          sleeps (failing_run_events env config) = [50000000, 100000000])"
proof -
  let ?k = "nat (MaxAttempts config - 1)"
  let ?last = "if 1 \<le> MaxAttempts config then fn env (MaxAttempts config) else None"
  have same: "outcome_of (RetryWithBackoff env config cb) =
              outcome_of (RetryWithBackoff env config None)"
  proof (cases "cb = None")
    case True
    then show ?thesis by simp
  next
    case False
    with allowed have "\<not> refused (RetryWithBackoff env config cb)" by simp
    then show ?thesis
      unfolding RetryWithBackoff_def by (rule RetryLoop_breaker_irrelevant)
  qed
  have 4: "nth_delay env config 0 = InitialDelay config"
    by (simp add: nth_delay_def)
  show ?thesis
  proof (cases "1 \<le> MaxAttempts config")
    case pos: True
    have none: "RetryWithBackoff env config None =
                  (Some (max_retries_error config (fn env (MaxAttempts config))), None,
                   failing_run_events env config)"
      unfolding RetryWithBackoff_def
      using failing_loop_None [OF fails waits _ pos refl, of "InitialDelay config" None "[]"]
      by (simp add: failing_run_events_eq [OF pos])
    have 1: "outcome_of (RetryWithBackoff env config cb) =
               (Some (Errorf (MaxRetriesExceeded (MaxAttempts config)) ?last),
                failing_run_events env config)"
      unfolding same none using pos by (simp add: outcome_of_def max_retries_error_def)
    have n: "nat (MaxAttempts config) - 1 = ?k" "Suc ?k = nat (MaxAttempts config)"
      using pos by simp_all
    have 2: "length (filter is_Invoked (failing_run_events env config)) = nat (MaxAttempts config)"
      by (simp only: failing_run_events_eq [OF pos] invocations_tail_events n)
    have 3: "sleeps (failing_run_events env config) =
               map (nth_delay env config) [0 ..< nat (MaxAttempts config) - 1]"
      by (simp only: failing_run_events_eq [OF pos] sleeps_tail_events n)
         (simp add: nth_delay_def)
    from 1 2 3 4 nth_delay_Suc default_sleeps [OF 3] show ?thesis by blast
  next
    case False
    then have stop: "\<not> 1 \<le> MaxAttempts config" and lt: "MaxAttempts config < 1" by simp_all
    have none: "RetryWithBackoff env config None =
                  (Some (max_retries_error config None), None, [])"
      unfolding RetryWithBackoff_def by (rule RetryLoop_exhausted [OF stop])
    have ev: "failing_run_events env config = []"
      using lt by (simp add: failing_run_events_def)
    have 1: "outcome_of (RetryWithBackoff env config cb) =
               (Some (Errorf (MaxRetriesExceeded (MaxAttempts config)) ?last),
                failing_run_events env config)"
      unfolding same none ev using stop by (simp add: outcome_of_def max_retries_error_def)
    have 2: "length (filter is_Invoked (failing_run_events env config)) = nat (MaxAttempts config)"
      using lt by (simp add: ev)
    have 3: "sleeps (failing_run_events env config) =
               map (nth_delay env config) [0 ..< nat (MaxAttempts config) - 1]"
      using lt by (simp add: ev)
    from 1 2 3 4 nth_delay_Suc default_sleeps [OF 3] show ?thesis by blast
  qed
qed

theorem retry_exhausts_attempts_witness:
  "\<not> refused (RetryWithBackoff always_failing DefaultRetryConfig
                (Some (DefaultCircuitBreaker ''liquidity''))) \<and>
   outcome_of (RetryWithBackoff always_failing DefaultRetryConfig None) =
     (Some (Errorf (MaxRetriesExceeded 3) (Some (OpError ''unavailable''))),
      [Invoked 1, Slept 50000000, Invoked 2, Slept 100000000, Invoked 3]) \<and>
   outcome_of (RetryWithBackoff always_failing DefaultRetryConfig
                 (Some (DefaultCircuitBreaker ''liquidity''))) =
     (Some (Errorf (MaxRetriesExceeded 3) (Some (OpError ''unavailable''))),
      [Invoked 1, Slept 50000000, Invoked 2, Slept 100000000, Invoked 3])"
proof -
  have f: "\<forall>k. 1 \<le> k \<and> k \<le> MaxAttempts DefaultRetryConfig \<longrightarrow> fn always_failing k \<noteq> None"
    and w: "\<forall>k. 1 \<le> k \<and> k < MaxAttempts DefaultRetryConfig \<longrightarrow> ctx_done always_failing k = None"
    by (simp_all add: always_failing_facts)
  have a: "\<not> refused (RetryWithBackoff always_failing DefaultRetryConfig
                        (Some (DefaultCircuitBreaker ''liquidity'')))"
    by (simp add: refused_def RetryWithBackoff_def RetryLoop.simps breaker_check_def
                  canExecute_def canExecute_from_def recordFailure_def CompareAndSwapState_def
                  DefaultCircuitBreaker_def NewCircuitBreaker_def always_failing_facts
                  config_facts default_delays max_retries_error_def circuit_open_error_def
                  Let_def)
  from retry_exhausts_attempts [OF f w, of None]
  have 1: "outcome_of (RetryWithBackoff always_failing DefaultRetryConfig None) =
             (Some (Errorf (MaxRetriesExceeded 3) (Some (OpError ''unavailable''))),
              failing_run_events always_failing DefaultRetryConfig)"
    by (simp add: config_facts always_failing_facts)
  then have ev: "failing_run_events always_failing DefaultRetryConfig =
                   [Invoked 1, Slept 50000000, Invoked 2, Slept 100000000, Invoked 3]"
    by (simp add: run_default outcome_of_def)
  from retry_exhausts_attempts [OF f w, of "Some (DefaultCircuitBreaker ''liquidity'')"] a
  have 2: "outcome_of (RetryWithBackoff always_failing DefaultRetryConfig
                         (Some (DefaultCircuitBreaker ''liquidity''))) =
             (Some (Errorf (MaxRetriesExceeded 3) (Some (OpError ''unavailable''))),
              failing_run_events always_failing DefaultRetryConfig)"
    by (simp add: config_facts always_failing_facts)
  from a 1 2 show ?thesis by (simp add: ev)
qed

text \<open>
  C2 as the specification words it fails in two ways. The delay is not updated to the
  minimum of \<open>MaxDelay\<close> and the product of delay and multiplier: after a first wait of
  \<open>2^53 + 1\<close> nanoseconds with the multiplier 1.0 the second wait is \<open>2^53\<close>
  nanoseconds, since the delay is rounded to a \<open>float64\<close>; after a first wait of 3
  nanoseconds with the \<open>float64\<close> nearest to a third the second wait is 1 nanosecond,
  though the product is below 1; and with the \<open>float64\<close> nearest to \<open>10^19\<close> the
  product is beyond every \<open>int64\<close>, the conversion answers the least \<open>int64\<close> where it
  does on amd64, and that, not \<open>MaxDelay\<close>, is the next delay. And an operation that
  always fails is not invoked \<open>MaxAttempts\<close> times when the context is done during the
  first wait: the call returns after one invocation.
\<close>

theorem retry_delay_rounds_and_wait_is_cancelled:
  "Multiplier long_delay_config = Finite 1 \<and>
   min (InitialDelay long_delay_config * 1) (MaxDelay long_delay_config) = 9007199254740993 \<and>
   sleeps (snd (snd (RetryWithBackoff always_failing long_delay_config None))) =
     [9007199254740993, 9007199254740992] \<and>
   Multiplier third_config = Finite (6004799503160661 / 18014398509481984) \<and>
   (of_int (InitialDelay third_config) * (6004799503160661 / 18014398509481984) :: rat) < 1 \<and>
   sleeps (snd (snd (RetryWithBackoff always_failing third_config None))) = [3, 1] \<and>
   Multiplier huge_multiplier_config = Finite 10000000000000000000 \<and>
   MaxDelay huge_multiplier_config = 500000000 \<and>
   sleeps (snd (snd (RetryWithBackoff always_failing huge_multiplier_config None))) =
     [50000000, - 9223372036854775808] \<and>
   MaxAttempts DefaultRetryConfig = 3 \<and>
   fn cancelled_waits 1 = Some (OpError ''unavailable'') \<and>
   fn cancelled_waits 2 = Some (OpError ''unavailable'') \<and>
   fn cancelled_waits 3 = Some (OpError ''unavailable'') \<and>
   RetryWithBackoff cancelled_waits DefaultRetryConfig None =
     (Some (Errorf RetryCancelled (Some ContextCanceled)), None, [Invoked 1])"
  by (simp add: run_long run_third run_huge run_cancelled config_facts always_failing_facts
                config_multipliers)

section \<open>Retry with backoff: the breaker refuses, or there is none\<close>

text \<open>
  C5. When a breaker is bound and its \<open>canExecute\<close> refuses before an attempt, the call
  returns at once the open-circuit error, which wraps \<open>ErrCircuitOpen\<close>: the events are
  those made before the check, so the operation is not invoked for that attempt and no
  wait follows; the breaker is left as it was. In particular a refusal before the first
  attempt returns with no invocation and no wait at all. When no breaker is bound, no
  breaker comes back from the call, and the call returns the same error and makes the
  same invocations and waits as with any breaker that does not refuse it.
\<close>

theorem breaker_refusal_and_nil_breaker:
  "(attempt \<le> MaxAttempts config \<and> \<not> fst (canExecute (check_time env attempt) b) \<longrightarrow>
      RetryLoop env config attempt delay lastErr (Some b) tr =
        (Some circuit_open_error, Some b, tr)) \<and>
   (1 \<le> MaxAttempts config \<and> \<not> fst (canExecute (check_time env 1) b) \<longrightarrow>
      RetryWithBackoff env config (Some b) = (Some circuit_open_error, Some b, [])) \<and>
   Unwrap circuit_open_error = Some ErrCircuitOpen \<and>
   fst (snd (RetryWithBackoff env config None)) = None \<and>
   (\<not> refused (RetryWithBackoff env config cb) \<longrightarrow>
      outcome_of (RetryWithBackoff env config cb) =
      outcome_of (RetryWithBackoff env config None))"
proof -
  have loop: "RetryLoop env config a d le (Some b) t = (Some circuit_open_error, Some b, t)"
    if "a \<le> MaxAttempts config" "\<not> fst (canExecute (check_time env a) b)" for a d le t
  proof -
    from that(2) have "\<not> fst (breaker_check env a (Some b))"
      and "snd (breaker_check env a (Some b)) = Some b"
      by (simp_all add: breaker_check_def canExecute_denied_unchanged)
    with RetryLoop_refused [OF that(1), of env "Some b" d le t] show ?thesis by simp
  qed
  have 1: "attempt \<le> MaxAttempts config \<and> \<not> fst (canExecute (check_time env attempt) b) \<longrightarrow>
      RetryLoop env config attempt delay lastErr (Some b) tr =
        (Some circuit_open_error, Some b, tr)"
    using loop by blast
  have 2: "1 \<le> MaxAttempts config \<and> \<not> fst (canExecute (check_time env 1) b) \<longrightarrow>
      RetryWithBackoff env config (Some b) = (Some circuit_open_error, Some b, [])"
    unfolding RetryWithBackoff_def using loop by blast
  have 3: "Unwrap circuit_open_error = Some ErrCircuitOpen"
    by (simp add: circuit_open_error_def)
  have 4: "fst (snd (RetryWithBackoff env config None)) = None"
    unfolding RetryWithBackoff_def by (rule RetryLoop_None_breaker)
  have 5: "\<not> refused (RetryWithBackoff env config cb) \<longrightarrow>
      outcome_of (RetryWithBackoff env config cb) =
      outcome_of (RetryWithBackoff env config None)"
    unfolding RetryWithBackoff_def using RetryLoop_breaker_irrelevant by blast
  from 1 2 3 4 5 show ?thesis by blast
qed

theorem breaker_refusal_and_nil_breaker_witness:
  "1 \<le> MaxAttempts DefaultRetryConfig \<and>
   \<not> fst (canExecute (check_time always_failing 1) tripped_breaker) \<and>
   RetryWithBackoff always_failing DefaultRetryConfig (Some tripped_breaker) =
     (Some circuit_open_error, Some tripped_breaker, []) \<and>
   3 \<le> MaxAttempts DefaultRetryConfig \<and>
   \<not> fst (canExecute (check_time always_failing 3)
            (recordFailure 2001 (recordFailure 1001 fragile_breaker))) \<and>
   RetryLoop always_failing DefaultRetryConfig 3 200000000 (Some (OpError ''unavailable''))
     (Some (recordFailure 2001 (recordFailure 1001 fragile_breaker)))
     [Invoked 1, Slept 50000000, Invoked 2, Slept 100000000] =
     (Some circuit_open_error, Some (recordFailure 2001 (recordFailure 1001 fragile_breaker)),
      [Invoked 1, Slept 50000000, Invoked 2, Slept 100000000]) \<and>
   RetryWithBackoff always_failing DefaultRetryConfig (Some fragile_breaker) =
     (Some circuit_open_error, Some (recordFailure 2001 (recordFailure 1001 fragile_breaker)),
      [Invoked 1, Slept 50000000, Invoked 2, Slept 100000000]) \<and>
   \<not> refused (RetryWithBackoff always_failing DefaultRetryConfig
                (Some (DefaultCircuitBreaker ''liquidity''))) \<and>
   outcome_of (RetryWithBackoff always_failing DefaultRetryConfig
                 (Some (DefaultCircuitBreaker ''liquidity''))) =
   outcome_of (RetryWithBackoff always_failing DefaultRetryConfig None)"
proof -
  let ?b = "recordFailure 2001 (recordFailure 1001 fragile_breaker)"
  let ?tr = "[Invoked 1, Slept 50000000, Invoked 2, Slept 100000000]"
  have p: "1 \<le> MaxAttempts DefaultRetryConfig" "3 \<le> MaxAttempts DefaultRetryConfig"
    by (simp_all add: DefaultRetryConfig_def)
  have d: "\<not> fst (canExecute (check_time always_failing 1) tripped_breaker)"
    by code_simp
  have d3: "\<not> fst (canExecute (check_time always_failing 3) ?b)"
    by code_simp
  have whole: "RetryWithBackoff always_failing DefaultRetryConfig (Some fragile_breaker) =
                 (Some circuit_open_error, Some ?b, ?tr)"
    by code_simp
  have a: "\<not> refused (RetryWithBackoff always_failing DefaultRetryConfig
                        (Some (DefaultCircuitBreaker ''liquidity'')))"
    by code_simp
  show ?thesis
    using breaker_refusal_and_nil_breaker
            [of 1 DefaultRetryConfig always_failing tripped_breaker 0 None "[]"
                "Some (DefaultCircuitBreaker ''liquidity'')"]
          breaker_refusal_and_nil_breaker
            [of 3 DefaultRetryConfig always_failing ?b 200000000
                "Some (OpError ''unavailable'')" ?tr None]
          p d d3 a whole
    by simp
qed

section \<open>The liquidity check: local failures\<close>

lemma checkLiquidity_parse_error:
  "xml_Unmarshal e data = Inl err \<Longrightarrow>
   checkLiquidity e data =
     ((False, ''LIQUIDITY_CHECK_ERROR'', ''Failed to parse XML for liquidity check'', 0), [])"
  by (simp add: checkLiquidity_def)

lemma checkLiquidity_no_transactions:
  "xml_Unmarshal e data = Inr doc \<Longrightarrow> CdtTrfTxInf (FIToFICstmrCdtTrf doc) = [] \<Longrightarrow>
   checkLiquidity e data = ((True, '''', '''', 0), [])"
  by (simp add: checkLiquidity_def)

lemma checkLiquidity_bad_amount:
  "xml_Unmarshal e data = Inr doc \<Longrightarrow> CdtTrfTxInf (FIToFICstmrCdtTrf doc) = tx # txs \<Longrightarrow>
   strconv_ParseFloat e (Value (IntrBkSttlmAmt tx)) = None \<Longrightarrow>
   checkLiquidity e data = ((False, ''LIQUIDITY_CHECK_ERROR'', ''Failed to parse amount'', 0), [])"
  by (simp add: checkLiquidity_def Let_def)

lemma unreachable_client_down: "isl (CheckLiquidity unreachable_client bankID a currency)"
  by (simp add: CheckLiquidity_def unreachable_client_def)

text \<open>
  C9. \<open>checkLiquidity\<close> refuses with the code \<open>LIQUIDITY_CHECK_ERROR\<close>, and makes no
  remote call, when the XML of the message cannot be parsed, and when the amount of the
  first transaction is not a number; whether a client is there, and whether it can be
  reached, plays no part.
\<close>

theorem checkLiquidity_local_parse_failures:
  "(xml_Unmarshal e data = Inl err \<longrightarrow>
      checkLiquidity e data =
        ((False, ''LIQUIDITY_CHECK_ERROR'', ''Failed to parse XML for liquidity check'', 0), [])) \<and>
   (xml_Unmarshal e data = Inr doc \<and> CdtTrfTxInf (FIToFICstmrCdtTrf doc) = tx # txs \<and>
    strconv_ParseFloat e (Value (IntrBkSttlmAmt tx)) = None \<longrightarrow>
      checkLiquidity e data =
        ((False, ''LIQUIDITY_CHECK_ERROR'', ''Failed to parse amount'', 0), []))"
  using checkLiquidity_parse_error checkLiquidity_bad_amount by blast

theorem checkLiquidity_local_parse_failures_witness:
  "xml_Unmarshal (sample_env (Some unreachable_client)) ''<Document'' = Inl ''EOF'' \<and>
   fst (fst (checkLiquidity (sample_env (Some unreachable_client)) ''<Document'')) = False \<and>
   fst (snd (fst (checkLiquidity (sample_env (Some unreachable_client)) ''<Document'')))
     = ''LIQUIDITY_CHECK_ERROR'' \<and>
   xml_Unmarshal (sample_env (Some unreachable_client)) ''bad-amount'' = Inr bad_amount_doc \<and>
   strconv_ParseFloat (sample_env (Some unreachable_client)) ''abc'' = None \<and>
   fst (fst (checkLiquidity (sample_env (Some unreachable_client)) ''bad-amount'')) = False \<and>
   fst (snd (fst (checkLiquidity (sample_env (Some unreachable_client)) ''bad-amount'')))
     = ''LIQUIDITY_CHECK_ERROR''"
proof -
  let ?e = "sample_env (Some unreachable_client)"
  let ?tx = "sample_tx\<lparr>IntrBkSttlmAmt := \<lparr>Ccy = ''SGD'', Value = ''abc''\<rparr>\<rparr>"
  have x: "xml_Unmarshal ?e ''<Document'' = Inl ''EOF''"
    by (simp add: sample_env_def sample_Unmarshal_def)
  have d: "xml_Unmarshal ?e ''bad-amount'' = Inr bad_amount_doc"
    by (simp add: sample_env_def sample_Unmarshal_def)
  have t: "CdtTrfTxInf (FIToFICstmrCdtTrf bad_amount_doc) = ?tx # []"
    by (simp add: bad_amount_doc_def)
  have n: "strconv_ParseFloat ?e ''abc'' = None"
    by (simp add: sample_env_def sample_ParseFloat_def)
  have n': "strconv_ParseFloat ?e (Value (IntrBkSttlmAmt ?tx)) = None"
    using n by simp
  show ?thesis
    using checkLiquidity_local_parse_failures [of ?e "''<Document''" "''EOF''"]
          checkLiquidity_local_parse_failures [of ?e "''bad-amount''" _ bad_amount_doc ?tx "[]"]
          x d t n n'
    by simp
qed

section \<open>Validation: every rule is evaluated\<close>

text \<open>
  A result follows a list of codes when it is valid exactly if the list is empty and
  carries the last code of the list (no code for the empty list).
\<close>

lemma follows_reject: "follows result codes \<Longrightarrow> follows (reject code msg result) (codes @ [code])"
  by (simp add: follows_def reject_def)

lemma follows_check_MsgId:
  "follows result codes \<Longrightarrow>
   follows (check_MsgId doc result)
     (codes @ (if GroupHeader.MsgId (GrpHdr (FIToFICstmrCdtTrf doc)) = ''''
               then [''MISSING_MSG_ID''] else []))"
  by (simp add: check_MsgId_def follows_reject) (simp add: follows_def)

lemma follows_check_NbOfTxs:
  "follows result codes \<Longrightarrow>
   follows (check_NbOfTxs doc result)
     (codes @ (if NbOfTxs (GrpHdr (FIToFICstmrCdtTrf doc)) \<le> 0 then [''INVALID_TX_COUNT''] else []))"
  by (simp add: check_NbOfTxs_def follows_reject)

lemma follows_check_SttlmMtd:
  "follows result codes \<Longrightarrow>
   follows (check_SttlmMtd doc result)
     (codes @ (if SttlmMtd (SttlmInf (GrpHdr (FIToFICstmrCdtTrf doc))) \<notin> validSttlmMethods
               then [''INVALID_STTLM_MTD''] else []))"
  by (simp add: check_SttlmMtd_def follows_reject)

lemma follows_check_transactions:
  "follows result codes \<Longrightarrow>
   follows (check_transactions doc result)
     (codes @ (if CdtTrfTxInf (FIToFICstmrCdtTrf doc) = [] then [''NO_TRANSACTIONS''] else []))"
  by (simp add: check_transactions_def follows_reject)

lemma follows_check_BICs:
  assumes f: "follows result codes"
  shows "follows (check_BICs doc result)
     (codes @
      (if CdtTrfTxInf (FIToFICstmrCdtTrf doc) \<noteq> [] \<and>
          bad_BIC (BICFI (FinInstnId (DbtrAgt (hd (CdtTrfTxInf (FIToFICstmrCdtTrf doc))))))
       then [''INVALID_DBTR_BIC''] else []) @
      (if CdtTrfTxInf (FIToFICstmrCdtTrf doc) \<noteq> [] \<and>
          bad_BIC (BICFI (FinInstnId (CdtrAgt (hd (CdtTrfTxInf (FIToFICstmrCdtTrf doc))))))
       then [''INVALID_CDTR_BIC''] else []))"
proof (cases "CdtTrfTxInf (FIToFICstmrCdtTrf doc)")
  case Nil
  with f show ?thesis by (simp add: check_BICs_def)
next
  case (Cons tx txs)
  have 1: "follows (check_DbtrBIC tx result)
             (codes @ (if bad_BIC (BICFI (FinInstnId (DbtrAgt tx))) then [''INVALID_DBTR_BIC''] else []))"
    using f by (simp add: check_DbtrBIC_def follows_reject)
  have "follows (check_CdtrBIC tx (check_DbtrBIC tx result))
          ((codes @ (if bad_BIC (BICFI (FinInstnId (DbtrAgt tx))) then [''INVALID_DBTR_BIC''] else []))
            @ (if bad_BIC (BICFI (FinInstnId (CdtrAgt tx))) then [''INVALID_CDTR_BIC''] else []))"
    using 1 by (simp add: check_CdtrBIC_def follows_reject del: append_assoc)
  then show ?thesis by (simp add: check_BICs_def Cons)
qed

lemma follows_check_tx:
  assumes "follows result codes"
  shows "follows (check_tx i tx result) (codes @ tx_failing_rules i tx)"
proof -
  let ?c1 = "codes @ (if InstrId (PmtId tx) = '''' then [''MISSING_PMT_ID_TX'' @ itoa (int i)] else [])"
  let ?c2 = "?c1 @ (if Ccy (IntrBkSttlmAmt tx) = '''' then [''MISSING_CURRENCY_TX'' @ itoa (int i)] else [])"
  let ?c3 = "?c2 @ (if Value (IntrBkSttlmAmt tx) = '''' then [''MISSING_AMOUNT_TX'' @ itoa (int i)] else [])"
  let ?c4 = "?c3 @ (if IntrBkSttlmDt tx = '''' then [''MISSING_STTLM_DT_TX'' @ itoa (int i)] else [])"
  let ?c5 = "?c4 @ (if ChrgBr tx \<notin> validChrgBr then [''INVALID_CHRG_BR_TX'' @ itoa (int i)] else [])"
  have 1: "follows (check_InstrId i tx result) ?c1"
    using assms by (simp add: check_InstrId_def follows_reject)
  have 2: "follows (check_Ccy i tx (check_InstrId i tx result)) ?c2"
    using 1 by (simp add: check_Ccy_def follows_reject del: append_assoc)
  have 3: "follows (check_Value i tx (check_Ccy i tx (check_InstrId i tx result))) ?c3"
    using 2 by (simp add: check_Value_def follows_reject del: append_assoc)
  have 4: "follows (check_IntrBkSttlmDt i tx
             (check_Value i tx (check_Ccy i tx (check_InstrId i tx result)))) ?c4"
    using 3 by (simp add: check_IntrBkSttlmDt_def follows_reject del: append_assoc)
  have 5: "follows (check_tx i tx result) ?c5"
    unfolding check_tx_def
    using 4 by (simp add: check_ChrgBr_def follows_reject del: append_assoc)
  have "?c5 = codes @ tx_failing_rules i tx"
    by (simp add: tx_failing_rules_def)
  with 5 show ?thesis by simp
qed

lemma follows_check_txs:
  "follows result codes \<Longrightarrow>
   follows (check_txs i txs result)
     (codes @ concat (map (\<lambda>(i, tx). tx_failing_rules i tx) (enumerate i txs)))"
proof (induction txs arbitrary: i result codes)
  case Nil
  then show ?case by simp
next
  case (Cons tx txs)
  from Cons.prems have "follows (check_tx i tx result) (codes @ tx_failing_rules i tx)"
    by (rule follows_check_tx)
  from Cons.IH [OF this, of "Suc i"] show ?case by simp
qed

lemma follows_validate_document:
  assumes "follows result []"
  shows "follows (validate_document doc result) (failing_rules doc)"
proof -
  let ?hdr = "GrpHdr (FIToFICstmrCdtTrf doc)"
  let ?txs = "CdtTrfTxInf (FIToFICstmrCdtTrf doc)"
  let ?c1 = "[] @ (if GroupHeader.MsgId ?hdr = '''' then [''MISSING_MSG_ID''] else [])"
  let ?c2 = "?c1 @ (if NbOfTxs ?hdr \<le> 0 then [''INVALID_TX_COUNT''] else [])"
  let ?c3 = "?c2 @ (if SttlmMtd (SttlmInf ?hdr) \<notin> validSttlmMethods then [''INVALID_STTLM_MTD''] else [])"
  let ?c4 = "?c3 @ (if ?txs = [] then [''NO_TRANSACTIONS''] else [])"
  let ?c5 = "?c4 @ (if ?txs \<noteq> [] \<and> bad_BIC (BICFI (FinInstnId (DbtrAgt (hd ?txs))))
                    then [''INVALID_DBTR_BIC''] else [])
                 @ (if ?txs \<noteq> [] \<and> bad_BIC (BICFI (FinInstnId (CdtrAgt (hd ?txs))))
                    then [''INVALID_CDTR_BIC''] else [])"
  let ?c6 = "?c5 @ concat (map (\<lambda>(i, tx). tx_failing_rules i tx) (enumerate 0 ?txs))"
  have 1: "follows (check_MsgId doc result) ?c1"
    by (rule follows_check_MsgId [OF assms])
  have 2: "follows (check_NbOfTxs doc (check_MsgId doc result)) ?c2"
    by (rule follows_check_NbOfTxs [OF 1])
  have 3: "follows (check_SttlmMtd doc (check_NbOfTxs doc (check_MsgId doc result))) ?c3"
    by (rule follows_check_SttlmMtd [OF 2])
  have 4: "follows (check_transactions doc
             (check_SttlmMtd doc (check_NbOfTxs doc (check_MsgId doc result)))) ?c4"
    by (rule follows_check_transactions [OF 3])
  have 5: "follows (check_BICs doc (check_transactions doc
             (check_SttlmMtd doc (check_NbOfTxs doc (check_MsgId doc result))))) ?c5"
    by (rule follows_check_BICs [OF 4])
  have 6: "follows (validate_document doc result) ?c6"
    unfolding validate_document_def by (rule follows_check_txs [OF 5])
  have "?c6 = failing_rules doc"
    by (simp add: failing_rules_def Let_def)
  with 6 show ?thesis by simp
qed

text \<open>
  C7. For a message that parses, \<open>validateTransaction\<close> goes through all the rules, a
  failed rule not stopping the later ones: the result is valid exactly if the document
  violates no rule, and otherwise it carries the code of the last rule, in the order of
  evaluation (header, transaction list, agents of the first transaction, then each
  transaction in turn), that the document violates.
\<close>

theorem validateTransaction_reports_last_failing_rule:
  assumes "xml_Unmarshal e data = Inr doc"
  shows "Valid (validateTransaction e t0 t1 t2 data) = (failing_rules doc = []) \<and>
         ErrorCode (validateTransaction e t0 t1 t2 data) =
           (if failing_rules doc = [] then '''' else last (failing_rules doc))"
proof -
  have "follows (zero_result\<lparr>Valid := True, Timestamp := t1\<rparr>) []"
    by (simp add: follows_def zero_result_def)
  then have "follows (validate_document doc (zero_result\<lparr>Valid := True, Timestamp := t1\<rparr>))
               (failing_rules doc)"
    by (rule follows_validate_document)
  then show ?thesis
    using assms by (simp add: validateTransaction_def Let_def follows_def)
qed

lemma failing_rules_two_faults:
  "failing_rules two_faults_doc = [''MISSING_MSG_ID'', ''INVALID_CHRG_BR_TX1'']"
  by (simp add: failing_rules_def two_faults_doc_def tx_failing_rules_def sample_tx_def
                bank_def party_def bad_BIC_def validSttlmMethods_def validChrgBr_def
                itoa_def digit_def enumerate_eq_zip upt_rec Let_def)

theorem validateTransaction_reports_last_failing_rule_witness:
  "xml_Unmarshal (sample_env None) ''two-faults'' = Inr two_faults_doc \<and>
   failing_rules two_faults_doc = [''MISSING_MSG_ID'', ''INVALID_CHRG_BR_TX1''] \<and>
   Valid (validateTransaction (sample_env None) 0 1 5 ''two-faults'') = False \<and>
   ErrorCode (validateTransaction (sample_env None) 0 1 5 ''two-faults'') = ''INVALID_CHRG_BR_TX1''"
proof -
  have p: "xml_Unmarshal (sample_env None) ''two-faults'' = Inr two_faults_doc"
    by (simp add: sample_env_def sample_Unmarshal_def)
  show ?thesis
    using validateTransaction_reports_last_failing_rule [OF p, of 0 1 5] p
    by (simp add: failing_rules_two_faults)
qed

section \<open>The hub: one broadcast\<close>

text \<open>
  A new hub has no client; registering a client with an open channel and unregistering
  any client keep every client in the map with an open channel, and unregistering does
  not panic.
\<close>

lemma hub_ok_NewWebSocketHub: "hub_ok (NewWebSocketHub store)"
  by (simp add: hub_ok_def NewWebSocketHub_def)

lemma hub_ok_Run_register:
  "hub_ok h \<Longrightarrow> \<not> closed (send h client) \<Longrightarrow> hub_ok (Run_register client h)"
  by (simp add: hub_ok_def Run_register_def)

lemma hub_ok_Run_unregister:
  "hub_ok h \<Longrightarrow> \<exists>h'. Run_unregister client h = Inr h' \<and> hub_ok h'"
  by (auto simp: hub_ok_def Run_unregister_def close_chan_def)

lemma offer_open:
  assumes "\<not> closed (send h c)"
  shows "offer m c h =
           Inr (if is_full (send h c)
                then h\<lparr>send := (send h)(c := (send h c)\<lparr>closed := True\<rparr>),
                       clients := clients h - {c}\<rparr>
                else h\<lparr>send := (send h)(c := (send h c)\<lparr>buf := buf (send h c) @ [m]\<rparr>)\<rparr>)"
  using assms by (simp add: offer_def try_send_def close_chan_def is_full_def)

text \<open>
  The loop over distinct clients with open channels: nobody panics; each visited client
  either gets the message appended to its buffer or, its buffer being full, has its
  channel closed and leaves the map; the others are untouched.
\<close>

lemma offer_all_effect:
  assumes "distinct cs" and "\<forall>c\<in>set cs. \<not> closed (send h c)"
  shows "\<exists>h'. offer_all m cs h = Inr h' \<and>
           broadcast h' = broadcast h \<and>
           clients h' = clients h - {c \<in> set cs. is_full (send h c)} \<and>
           (\<forall>c. send h' c =
                  (if c \<in> set cs
                   then (if is_full (send h c)
                         then (send h c)\<lparr>closed := True\<rparr>
                         else (send h c)\<lparr>buf := buf (send h c) @ [m]\<rparr>)
                   else send h c))"
  using assms
proof (induction cs arbitrary: h)
  case Nil
  show ?case by simp
next
  case (Cons c cs)
  define h1 where
    "h1 = (if is_full (send h c)
           then h\<lparr>send := (send h)(c := (send h c)\<lparr>closed := True\<rparr>),
                  clients := clients h - {c}\<rparr>
           else h\<lparr>send := (send h)(c := (send h c)\<lparr>buf := buf (send h c) @ [m]\<rparr>)\<rparr>)"
  from Cons.prems have op: "\<not> closed (send h c)" and nin: "c \<notin> set cs" and d: "distinct cs"
    by simp_all
  have step: "offer m c h = Inr h1"
    unfolding h1_def by (rule offer_open [OF op])
  have other: "send h1 c' = send h c'" if "c' \<noteq> c" for c'
    using that by (simp add: h1_def)
  have this_one: "send h1 c = (if is_full (send h c)
                               then (send h c)\<lparr>closed := True\<rparr>
                               else (send h c)\<lparr>buf := buf (send h c) @ [m]\<rparr>)"
    by (simp add: h1_def)
  have b1: "broadcast h1 = broadcast h"
    by (simp add: h1_def)
  have c1: "clients h1 = clients h - (if is_full (send h c) then {c} else {})"
    by (simp add: h1_def)
  have same: "send h1 c' = send h c'" if "c' \<in> set cs" for c'
    using that nin by (intro other) auto
  have "\<forall>c'\<in>set cs. \<not> closed (send h1 c')"
    using Cons.prems same by simp
  from Cons.IH [OF d this] obtain h' where
    run: "offer_all m cs h1 = Inr h'" and
    b: "broadcast h' = broadcast h1" and
    cl: "clients h' = clients h1 - {c' \<in> set cs. is_full (send h1 c')}" and
    sn: "\<And>c'. send h' c' =
                  (if c' \<in> set cs
                   then (if is_full (send h1 c')
                         then (send h1 c')\<lparr>closed := True\<rparr>
                         else (send h1 c')\<lparr>buf := buf (send h1 c') @ [m]\<rparr>)
                   else send h1 c')"
    by blast
  have 1: "offer_all m (c # cs) h = Inr h'" using step run by simp
  have 2: "broadcast h' = broadcast h" using b b1 by simp
  have full: "{c' \<in> set cs. is_full (send h1 c')} = {c' \<in> set cs. is_full (send h c')}"
    using same by auto
  have 3: "clients h' = clients h - {c' \<in> set (c # cs). is_full (send h c')}"
    unfolding cl full c1 by (cases "is_full (send h c)") auto
  have 4: "send h' c' =
             (if c' \<in> set (c # cs)
              then (if is_full (send h c')
                    then (send h c')\<lparr>closed := True\<rparr>
                    else (send h c')\<lparr>buf := buf (send h c') @ [m]\<rparr>)
              else send h c')" for c'
  proof (cases "c' \<in> set cs")
    case True
    with sn [of c'] same [OF True] show ?thesis by simp
  next
    case False
    show ?thesis
    proof (cases "c' = c")
      case True
      with sn [of c'] nin this_one show ?thesis by simp
    next
      case False
      with sn [of c'] \<open>c' \<notin> set cs\<close> other [OF False] show ?thesis by simp
    qed
  qed
  from 1 2 3 4 show ?case by blast
qed

text \<open>
  C8. Let every client in the map have an open channel, and let the hub take a message
  from its broadcast channel, visiting the clients in any order. The step does not
  panic, and every client that was in the map either stays in the map with the message
  appended to its send buffer, or had a full buffer and is evicted: its channel is
  closed and it is no longer in the map. Clients stay exactly if their buffer was not
  full, so a full buffer of one client costs the others nothing, and no client stays
  without the message. Afterwards every client in the map again has an open channel.
\<close>

theorem broadcast_delivers_or_evicts:
  assumes ok: "hub_ok h"
      and order: "distinct order" "set order = clients h"
      and queued: "buf (broadcast h) = message # queued"
  shows "\<exists>h'. Run_broadcast order h = Inr h' \<and>
           buf (broadcast h') = queued \<and>
           clients h' = {c \<in> clients h. \<not> is_full (send h c)} \<and>
           (\<forall>c\<in>clients h.
              (c \<in> clients h' \<and> send h' c = (send h c)\<lparr>buf := buf (send h c) @ [message]\<rparr>) \<or>
              (c \<notin> clients h' \<and> is_full (send h c) \<and> send h' c = (send h c)\<lparr>closed := True\<rparr>)) \<and>
           hub_ok h'"
proof -
  let ?h0 = "h\<lparr>broadcast := (broadcast h)\<lparr>buf := queued\<rparr>\<rparr>"
  have run: "Run_broadcast order h = offer_all message order ?h0"
    by (simp add: Run_broadcast_def queued)
  have "\<forall>c\<in>set order. \<not> closed (send ?h0 c)"
    using ok order(2) by (simp add: hub_ok_def)
  from offer_all_effect [OF order(1) this, of message] obtain h' where
    r: "offer_all message order ?h0 = Inr h'" and
    b: "broadcast h' = broadcast ?h0" and
    cl: "clients h' = clients ?h0 - {c \<in> set order. is_full (send ?h0 c)}" and
    sn: "\<And>c. send h' c =
                (if c \<in> set order
                 then (if is_full (send ?h0 c)
                       then (send ?h0 c)\<lparr>closed := True\<rparr>
                       else (send ?h0 c)\<lparr>buf := buf (send ?h0 c) @ [message]\<rparr>)
                 else send ?h0 c)"
    by blast
  have 1: "Run_broadcast order h = Inr h'" using run r by simp
  have 2: "buf (broadcast h') = queued" using b by simp
  have 3: "clients h' = {c \<in> clients h. \<not> is_full (send h c)}"
    using cl order(2) by auto
  have 4: "\<forall>c\<in>clients h.
              (c \<in> clients h' \<and> send h' c = (send h c)\<lparr>buf := buf (send h c) @ [message]\<rparr>) \<or>
              (c \<notin> clients h' \<and> is_full (send h c) \<and> send h' c = (send h c)\<lparr>closed := True\<rparr>)"
    using 3 sn order(2) by auto
  have 5: "hub_ok h'"
    unfolding hub_ok_def
  proof
    fix c assume c: "c \<in> clients h'"
    with 3 have "c \<in> clients h" "\<not> is_full (send h c)" by auto
    with sn [of c] order(2) ok show "\<not> closed (send h' c)"
      by (simp add: hub_ok_def)
  qed
  from 1 2 3 4 5 show ?thesis by blast
qed
lemma three_clients_facts:
  "hub_ok three_clients"
  "clients three_clients = {1, 2, 3}"
  "buf (broadcast three_clients) = [''event'']"
  "\<not> is_full (send three_clients 1)"
  "is_full (send three_clients 2)"
  "\<not> is_full (send three_clients 3)"
  "buf (send three_clients 1) = []"
  "buf (send three_clients 3) = []"
  by (simp_all add: three_clients_def hub_ok_def is_full_def make_chan_def)

theorem broadcast_delivers_or_evicts_witness:
  "distinct [3, 1, 2 :: nat] \<and>
   set [3, 1, 2] = clients three_clients \<and>
   buf (broadcast three_clients) = [''event''] \<and>
   \<not> isl (Run_broadcast [3, 1, 2] three_clients) \<and>
   clients (projr (Run_broadcast [3, 1, 2] three_clients)) = {1, 3} \<and>
   buf (send (projr (Run_broadcast [3, 1, 2] three_clients)) 1) = [''event''] \<and>
   buf (send (projr (Run_broadcast [3, 1, 2] three_clients)) 3) = [''event''] \<and>
   closed (send (projr (Run_broadcast [3, 1, 2] three_clients)) 2)"
proof -
  have d: "distinct [3, 1, 2 :: nat]" by simp
  have s: "set [3, 1, 2] = clients three_clients"
    by (auto simp: three_clients_facts(2))
  from broadcast_delivers_or_evicts [OF three_clients_facts(1) d s three_clients_facts(3)]
  obtain h' where
    r: "Run_broadcast [3, 1, 2] three_clients = Inr h'" and
    cl: "clients h' = {c \<in> clients three_clients. \<not> is_full (send three_clients c)}" and
    each: "\<forall>c\<in>clients three_clients.
             (c \<in> clients h' \<and>
              send h' c = (send three_clients c)\<lparr>buf := buf (send three_clients c) @ [''event'']\<rparr>) \<or>
             (c \<notin> clients h' \<and> is_full (send three_clients c) \<and>
              send h' c = (send three_clients c)\<lparr>closed := True\<rparr>)"
    by blast
  have c: "clients h' = {1, 3}"
    unfolding cl using three_clients_facts(4-6) by (auto simp: three_clients_facts(2))
  from each have e1: "send h' 1 = (send three_clients 1)\<lparr>buf := buf (send three_clients 1) @ [''event'']\<rparr>"
    and e3: "send h' 3 = (send three_clients 3)\<lparr>buf := buf (send three_clients 3) @ [''event'']\<rparr>"
    and e2: "send h' 2 = (send three_clients 2)\<lparr>closed := True\<rparr>"
    using three_clients_facts(4-6) c by (auto simp: three_clients_facts(2))
  have b: "buf (broadcast three_clients) = [''event'']"
    by (rule three_clients_facts(3))
  have o: "\<not> isl (Run_broadcast [3, 1, 2] three_clients)"
    and c': "clients (projr (Run_broadcast [3, 1, 2] three_clients)) = {1, 3}"
    and b1: "buf (send (projr (Run_broadcast [3, 1, 2] three_clients)) 1) = [''event'']"
    and b3: "buf (send (projr (Run_broadcast [3, 1, 2] three_clients)) 3) = [''event'']"
    and c2: "closed (send (projr (Run_broadcast [3, 1, 2] three_clients)) 2)"
    unfolding r using c e1 e2 e3 three_clients_facts(7,8) by simp_all
  from d s b o c' b1 b3 c2 show ?thesis by blast
qed

section \<open>The worker: items that are not broadcast\<close>

lemma broadcastTransactionToWS_parse_error:
  "xml_Unmarshal e data = Inl err \<Longrightarrow> broadcastTransactionToWS e now result data h = Inr h"
  by (simp add: broadcastTransactionToWS_def)

lemma broadcastTransactionToWS_no_transactions:
  "xml_Unmarshal e data = Inr doc \<Longrightarrow> CdtTrfTxInf (FIToFICstmrCdtTrf doc) = [] \<Longrightarrow>
   broadcastTransactionToWS e now result data h = Inr h"
  by (simp add: broadcastTransactionToWS_def)

lemma validate_no_transactions:
  assumes "xml_Unmarshal e data = Inr doc" and "CdtTrfTxInf (FIToFICstmrCdtTrf doc) = []"
  shows "\<not> Valid (validateTransaction e t0 t1 t2 data)"
    and "ErrorCode (validateTransaction e t0 t1 t2 data) = ''NO_TRANSACTIONS''"
  using assms
  by (simp_all add: validateTransaction_def validate_document_def check_BICs_def
                    check_transactions_def reject_def Let_def)

lemma process_item_parse_error:
  assumes "xml_Unmarshal e data = Inl err"
  shows "process_item e clock done data p =
           Inr (send_result done
                  (zero_result\<lparr>Valid := False, ErrorCode := ''LIQUIDITY_CHECK_ERROR'',
                               ErrorMsg := ''Failed to parse XML for liquidity check'',
                               Timestamp := clock 0\<rparr>)
                  (p\<lparr>MessagesInvalid := MessagesInvalid p + 1\<rparr>))"
  using assms
  by (simp add: process_item_def checkLiquidity_parse_error
                broadcastTransactionToWS_parse_error Let_def)

lemma process_item_no_transactions:
  assumes "xml_Unmarshal e data = Inr doc" and "CdtTrfTxInf (FIToFICstmrCdtTrf doc) = []"
  shows "process_item e clock done data p =
           Inr (send_result done (validateTransaction e (clock 0) (clock 1) (clock 2) data)
                  (p\<lparr>MessagesInvalid := MessagesInvalid p + 1\<rparr>))"
  using assms validate_no_transactions(1) [OF assms, of "clock 0" "clock 1" "clock 2"]
  by (simp add: process_item_def checkLiquidity_no_transactions
                broadcastTransactionToWS_no_transactions Let_def)

text \<open>
  C10, as the code has it. Let the XML of an item fail to unmarshal, or let its document
  have no \<open>CdtTrfTxInf\<close> entry. Then \<open>broadcastTransactionToWS\<close> returns with the hub
  as it was, whatever result it is given, and the worker's processing of the item leaves
  the hub, its broadcast channel included, unchanged; yet the item has a result, which
  is a rejection (\<open>LIQUIDITY_CHECK_ERROR\<close> in the first case, \<open>NO_TRANSACTIONS\<close> in the
  second). The result is sent on the results channel and the worker goes on, unless the
  context's case of the \<open>select\<close> is taken: then nothing is sent and the worker returns.
\<close>

theorem unparsed_or_empty_item_not_broadcast:
  assumes "isl (xml_Unmarshal e data) \<or>
           (\<exists>doc. xml_Unmarshal e data = Inr doc \<and> CdtTrfTxInf (FIToFICstmrCdtTrf doc) = [])"
  shows "broadcastTransactionToWS e now result data h = Inr h \<and>
         (\<exists>r p'. process_item e clock done data p = Inr (p', \<not> done) \<and>
                 wsHub p' = wsHub p \<and>
                 results p' = (if done then results p else results p @ [r]) \<and>
                 \<not> Valid r \<and>
                 ErrorCode r = (if isl (xml_Unmarshal e data)
                                then ''LIQUIDITY_CHECK_ERROR'' else ''NO_TRANSACTIONS''))"
proof -
  let ?p1 = "p\<lparr>MessagesInvalid := MessagesInvalid p + 1\<rparr>"
  let ?code = "if isl (xml_Unmarshal e data) then ''LIQUIDITY_CHECK_ERROR'' else ''NO_TRANSACTIONS''"
  have "broadcastTransactionToWS e now result data h = Inr h \<and>
        (\<exists>r. process_item e clock done data p = Inr (send_result done r ?p1) \<and>
              \<not> Valid r \<and> ErrorCode r = ?code)"
    using assms
  proof
    assume "isl (xml_Unmarshal e data)"
    then obtain err where x: "xml_Unmarshal e data = Inl err" by (auto simp: isl_def)
    let ?r = "zero_result\<lparr>Valid := False, ErrorCode := ''LIQUIDITY_CHECK_ERROR'',
                ErrorMsg := ''Failed to parse XML for liquidity check'', Timestamp := clock 0\<rparr>"
    have "process_item e clock done data p = Inr (send_result done ?r ?p1)"
      by (rule process_item_parse_error [OF x])
    moreover have "\<not> Valid ?r" "ErrorCode ?r = ?code" by (simp_all add: x)
    ultimately show ?thesis
      using broadcastTransactionToWS_parse_error [OF x] by blast
  next
    assume "\<exists>doc. xml_Unmarshal e data = Inr doc \<and> CdtTrfTxInf (FIToFICstmrCdtTrf doc) = []"
    then obtain doc where x: "xml_Unmarshal e data = Inr doc"
      and n: "CdtTrfTxInf (FIToFICstmrCdtTrf doc) = []" by auto
    let ?r = "validateTransaction e (clock 0) (clock 1) (clock 2) data"
    have "process_item e clock done data p = Inr (send_result done ?r ?p1)"
      by (rule process_item_no_transactions [OF x n])
    moreover have "\<not> Valid ?r" "ErrorCode ?r = ?code"
      using validate_no_transactions [OF x n, of "clock 0" "clock 1" "clock 2"]
      by (simp_all add: x)
    ultimately show ?thesis
      using broadcastTransactionToWS_no_transactions [OF x n] by blast
  qed
  then obtain r where
    b: "broadcastTransactionToWS e now result data h = Inr h" and
    pi: "process_item e clock done data p = Inr (send_result done r ?p1)" and
    v: "\<not> Valid r" "ErrorCode r = ?code"
    by blast
  let ?p' = "fst (send_result done r ?p1)"
  have 1: "process_item e clock done data p = Inr (?p', \<not> done)"
    by (simp add: pi send_result_def)
  have 2: "wsHub ?p' = wsHub p"
    by (simp add: send_result_def)
  have 3: "results ?p' = (if done then results p else results p @ [r])"
    by (simp add: send_result_def)
  from b 1 2 3 v show ?thesis by blast
qed

theorem unparsed_or_empty_item_not_broadcast_witness:
  "isl (xml_Unmarshal (sample_env None) ''<Document'') \<and>
   xml_Unmarshal (sample_env None) ''no-tx'' = Inr no_tx_doc \<and>
   CdtTrfTxInf (FIToFICstmrCdtTrf no_tx_doc) = [] \<and>
   buf (broadcast (wsHub empty_pipeline)) = [] \<and>
   wsHub (fst (projr (process_item (sample_env None) int False ''<Document'' empty_pipeline)))
     = wsHub empty_pipeline \<and>
   wsHub (fst (projr (process_item (sample_env None) int False ''no-tx'' empty_pipeline)))
     = wsHub empty_pipeline \<and>
   length (results (fst (projr (process_item (sample_env None) int False ''<Document''
                                  empty_pipeline)))) = 1 \<and>
   length (results (fst (projr (process_item (sample_env None) int False ''no-tx''
                                  empty_pipeline)))) = 1"
proof -
  have a: "isl (xml_Unmarshal (sample_env None) ''<Document'')"
    by (simp add: sample_env_def sample_Unmarshal_def)
  have b: "xml_Unmarshal (sample_env None) ''no-tx'' = Inr no_tx_doc"
    by (simp add: sample_env_def sample_Unmarshal_def)
  have c: "CdtTrfTxInf (FIToFICstmrCdtTrf no_tx_doc) = []"
    by (simp add: no_tx_doc_def)
  have h1: "isl (xml_Unmarshal (sample_env None) ''<Document'') \<or>
            (\<exists>doc. xml_Unmarshal (sample_env None) ''<Document'' = Inr doc \<and>
                   CdtTrfTxInf (FIToFICstmrCdtTrf doc) = [])"
    using a by simp
  have h2: "isl (xml_Unmarshal (sample_env None) ''no-tx'') \<or>
            (\<exists>doc. xml_Unmarshal (sample_env None) ''no-tx'' = Inr doc \<and>
                   CdtTrfTxInf (FIToFICstmrCdtTrf doc) = [])"
    using b c by simp
  have e: "buf (broadcast (wsHub empty_pipeline)) = []" and e': "results empty_pipeline = []"
    by (simp_all add: empty_pipeline_def NewWebSocketHub_def make_chan_def)
  from unparsed_or_empty_item_not_broadcast [OF h1, of 0 zero_result "wsHub empty_pipeline"
                                               int False empty_pipeline]
  obtain r1 p1 where
    1: "process_item (sample_env None) int False ''<Document'' empty_pipeline = Inr (p1, True)"
       "wsHub p1 = wsHub empty_pipeline" "results p1 = [r1]"
    using e' by auto
  from unparsed_or_empty_item_not_broadcast [OF h2, of 0 zero_result "wsHub empty_pipeline"
                                               int False empty_pipeline]
  obtain r2 p2 where
    2: "process_item (sample_env None) int False ''no-tx'' empty_pipeline = Inr (p2, True)"
       "wsHub p2 = wsHub empty_pipeline" "results p2 = [r2]"
    using e' by auto
  from a b c e 1 2 show ?thesis by simp
qed

text \<open>
  C10 as worded fails when the context is done as the result is about to be sent: for
  the malformed item and for the item without transactions the results channel gets
  nothing, and the worker stops.
\<close>

theorem item_result_not_sent_on_shutdown:
  "isl (xml_Unmarshal (sample_env None) ''<Document'') \<and>
   process_item (sample_env None) int True ''<Document'' empty_pipeline =
     Inr (empty_pipeline\<lparr>MessagesInvalid := 1\<rparr>, False) \<and>
   xml_Unmarshal (sample_env None) ''no-tx'' = Inr no_tx_doc \<and>
   CdtTrfTxInf (FIToFICstmrCdtTrf no_tx_doc) = [] \<and>
   process_item (sample_env None) int True ''no-tx'' empty_pipeline =
     Inr (empty_pipeline\<lparr>MessagesInvalid := 1\<rparr>, False) \<and>
   results (empty_pipeline\<lparr>MessagesInvalid := 1\<rparr>) = []"
proof -
  have a: "xml_Unmarshal (sample_env None) ''<Document'' = Inl ''EOF''"
    by (simp add: sample_env_def sample_Unmarshal_def)
  have b: "xml_Unmarshal (sample_env None) ''no-tx'' = Inr no_tx_doc"
    by (simp add: sample_env_def sample_Unmarshal_def)
  have c: "CdtTrfTxInf (FIToFICstmrCdtTrf no_tx_doc) = []"
    by (simp add: no_tx_doc_def)
  have z: "MessagesInvalid empty_pipeline = 0" "results empty_pipeline = []"
    by (simp_all add: empty_pipeline_def)
  show ?thesis
    using a b c z
    by (simp add: process_item_parse_error [OF a] process_item_no_transactions [OF b c]
                  send_result_def)
qed

section \<open>The worker when the liquidity check degrades\<close>

text \<open>With a client, the remote check of a message is the first call that the check makes.\<close>

lemma remote_check_is_call_made:
  "liquidityClient e = Some lc \<Longrightarrow>
   (case remote_check e data of
      None \<Rightarrow> snd (checkLiquidity e data) = []
    | Some (bankID, a, currency) \<Rightarrow>
        hd (snd (checkLiquidity e data)) = CheckLiquidityCall bankID a currency)"
  by (auto simp: remote_check_def checkLiquidity_def Let_def
           split: sum.splits list.splits option.splits)

lemma checkLiquidity_degraded:
  assumes "liquidityClient e = None \<or>
           (\<exists>lc. liquidityClient e = Some lc \<and>
                 (\<forall>bankID a currency. remote_check e data = Some (bankID, a, currency) \<longrightarrow>
                                       isl (CheckLiquidity lc bankID a currency)))"
  shows "fst (checkLiquidity e data) =
           (case local_parse_error e data of
              None \<Rightarrow> (True, '''', '''', 0)
            | Some msg \<Rightarrow> (False, ''LIQUIDITY_CHECK_ERROR'', msg, 0))"
proof (cases "xml_Unmarshal e data")
  case (Inl err)
  then show ?thesis
    by (simp add: checkLiquidity_parse_error local_parse_error_def)
next
  case (Inr doc)
  show ?thesis
  proof (cases "CdtTrfTxInf (FIToFICstmrCdtTrf doc)")
    case Nil
    with Inr show ?thesis
      by (simp add: checkLiquidity_no_transactions local_parse_error_def)
  next
    case (Cons tx txs)
    show ?thesis
    proof (cases "strconv_ParseFloat e (Value (IntrBkSttlmAmt tx))")
      case None
      with Inr Cons show ?thesis
        by (simp add: checkLiquidity_bad_amount local_parse_error_def)
    next
      case (Some a)
      have ok: "local_parse_error e data = None"
        using Inr Cons Some by (simp add: local_parse_error_def)
      from assms show ?thesis
      proof
        assume "liquidityClient e = None"
        with Inr Cons Some ok show ?thesis by (simp add: checkLiquidity_def Let_def)
      next
        assume "\<exists>lc. liquidityClient e = Some lc \<and>
                 (\<forall>bankID a currency. remote_check e data = Some (bankID, a, currency) \<longrightarrow>
                                       isl (CheckLiquidity lc bankID a currency))"
        then obtain lc where lc: "liquidityClient e = Some lc"
          and down: "\<And>bankID a currency. remote_check e data = Some (bankID, a, currency) \<Longrightarrow>
                       isl (CheckLiquidity lc bankID a currency)" by blast
        have "remote_check e data =
                Some (ExtractBankIDFromBIC e (BICFI (FinInstnId (DbtrAgt tx))), a,
                      Ccy (IntrBkSttlmAmt tx))"
          using Inr Cons Some by (simp add: remote_check_def)
        from down [OF this]
        obtain err where "CheckLiquidity lc (ExtractBankIDFromBIC e (BICFI (FinInstnId (DbtrAgt tx)))) a
                            (Ccy (IntrBkSttlmAmt tx)) = Inl err"
          by (auto simp: isl_def)
        with Inr Cons Some lc ok show ?thesis by (simp add: checkLiquidity_def Let_def)
      qed
    qed
  qed
qed

text \<open>With the hub's broadcast channel open, as it always is, the broadcast does not panic.\<close>

lemma broadcastTransactionToWS_open:
  "\<not> closed (broadcast h) \<Longrightarrow> \<exists>h'. broadcastTransactionToWS e now result data h = Inr h'"
  by (auto simp: broadcastTransactionToWS_def BroadcastTransaction_def BroadcastMessage_def
                 try_send_def Let_def
           split: sum.splits list.splits option.splits)

lemma process_item_degraded:
  assumes fst_check: "fst (checkLiquidity e data) =
             (case local_parse_error e data of
                None \<Rightarrow> (True, '''', '''', 0)
              | Some msg \<Rightarrow> (False, ''LIQUIDITY_CHECK_ERROR'', msg, 0))"
      and op: "\<not> closed (broadcast (wsHub p))"
  shows "\<exists>p'. process_item e clock done data p =
                Inr (send_result done (degraded_result e clock data) p')"
proof (cases "local_parse_error e data")
  case None
  let ?r = "validateTransaction e (clock 0) (clock 1) (clock 2) data"
  let ?p1 = "if Valid ?r then p\<lparr>MessagesValid := MessagesValid p + 1\<rparr>
             else p\<lparr>MessagesInvalid := MessagesInvalid p + 1\<rparr>"
  have "\<not> closed (broadcast (wsHub ?p1))" using op by simp
  from broadcastTransactionToWS_open [OF this, of e "clock 3" ?r data]
  obtain h' where "broadcastTransactionToWS e (clock 3) ?r data (wsHub ?p1) = Inr h'" by blast
  then have "process_item e clock done data p = Inr (send_result done ?r (?p1\<lparr>wsHub := h'\<rparr>))"
    using fst_check None by (simp add: process_item_def Let_def)
  then show ?thesis using None by (auto simp: degraded_result_def)
next
  case (Some msg)
  let ?r = "zero_result\<lparr>Valid := False, ErrorCode := ''LIQUIDITY_CHECK_ERROR'',
                        ErrorMsg := msg, Timestamp := clock 0\<rparr>"
  let ?p1 = "p\<lparr>MessagesInvalid := MessagesInvalid p + 1\<rparr>"
  have "\<not> closed (broadcast (wsHub ?p1))" using op by simp
  from broadcastTransactionToWS_open [OF this, of e "clock 1" ?r data]
  obtain h' where "broadcastTransactionToWS e (clock 1) ?r data (wsHub ?p1) = Inr h'" by blast
  then have "process_item e clock done data p = Inr (send_result done ?r (?p1\<lparr>wsHub := h'\<rparr>))"
    using fst_check Some by (simp add: process_item_def Let_def)
  then show ?thesis using Some by (auto simp: degraded_result_def)
qed

text \<open>
  C6, as the code has it. Let the liquidity client be absent, or let the remote
  \<open>CheckLiquidity\<close> call that the message leads to end in a communication error. Then
  \<open>checkLiquidity\<close> approves, with an empty error code and message, every message that
  passes its two local parses (the XML, and the amount of the first transaction if there
  is one), and refuses with \<open>LIQUIDITY_CHECK_ERROR\<close> every message that fails one of
  them. The worker's result for the item is then that refusal or, for a message that
  passes, the result of validation: the item is accepted exactly if it passes the two
  parses and validation, so only these parses and validation can reject it.
\<close>

theorem checkLiquidity_fails_open:
  assumes "liquidityClient e = None \<or>
           (\<exists>lc. liquidityClient e = Some lc \<and>
                 (\<forall>bankID a currency. remote_check e data = Some (bankID, a, currency) \<longrightarrow>
                                       isl (CheckLiquidity lc bankID a currency)))"
  shows "fst (checkLiquidity e data) =
           (case local_parse_error e data of
              None \<Rightarrow> (True, '''', '''', 0)
            | Some msg \<Rightarrow> (False, ''LIQUIDITY_CHECK_ERROR'', msg, 0)) \<and>
         (\<not> closed (broadcast (wsHub p)) \<longrightarrow>
            (\<exists>p'. process_item e clock done data p =
                     Inr (send_result done (degraded_result e clock data) p'))) \<and>
         (Valid (degraded_result e clock data) \<longleftrightarrow>
            local_parse_error e data = None \<and>
            Valid (validateTransaction e (clock 0) (clock 1) (clock 2) data))"
proof -
  have 1: "fst (checkLiquidity e data) =
           (case local_parse_error e data of
              None \<Rightarrow> (True, '''', '''', 0)
            | Some msg \<Rightarrow> (False, ''LIQUIDITY_CHECK_ERROR'', msg, 0))"
    by (rule checkLiquidity_degraded [OF assms])
  have 2: "\<not> closed (broadcast (wsHub p)) \<longrightarrow>
            (\<exists>p'. process_item e clock done data p =
                     Inr (send_result done (degraded_result e clock data) p'))"
    using process_item_degraded [OF 1] by blast
  have 3: "Valid (degraded_result e clock data) \<longleftrightarrow>
            local_parse_error e data = None \<and>
            Valid (validateTransaction e (clock 0) (clock 1) (clock 2) data)"
    by (cases "local_parse_error e data") (simp_all add: degraded_result_def)
  from 1 2 3 show ?thesis by blast
qed

lemma sample_remote_check:
  "remote_check (sample_env lc) ''sample'' = Some (''DBSSSGSG'', 201 / 2, ''SGD'')"
  "local_parse_error (sample_env lc) ''sample'' = None"
  by (simp_all add: remote_check_def local_parse_error_def sample_env_def sample_Unmarshal_def
                    sample_doc_def sample_tx_def sample_ParseFloat_def bank_def
                    ExtractBankIDFromBIC_def)

theorem checkLiquidity_fails_open_witness:
  "liquidityClient (sample_env (Some flaky_client)) = Some flaky_client \<and>
   remote_check (sample_env (Some flaky_client)) ''sample'' = Some (''DBSSSGSG'', 201 / 2, ''SGD'') \<and>
   isl (CheckLiquidity flaky_client ''DBSSSGSG'' (201 / 2) ''SGD'') \<and>
   \<not> isl (CheckLiquidity flaky_client ''BKKBTHBK'' (201 / 2) ''SGD'') \<and>
   fst (checkLiquidity (sample_env (Some flaky_client)) ''sample'') = (True, '''', '''', 0) \<and>
   fst (checkLiquidity (sample_env None) ''sample'') = (True, '''', '''', 0)"
proof -
  have c: "liquidityClient (sample_env (Some flaky_client)) = Some flaky_client"
    by (simp add: sample_env_def)
  have d': "isl (CheckLiquidity flaky_client ''DBSSSGSG'' a currency)" for a currency
    by (simp add: CheckLiquidity_def flaky_client_def)
  have d: "isl (CheckLiquidity flaky_client ''DBSSSGSG'' (201 / 2) ''SGD'')"
    and u: "\<not> isl (CheckLiquidity flaky_client ''BKKBTHBK'' (201 / 2) ''SGD'')"
    by (simp_all add: CheckLiquidity_def flaky_client_def)
  have h1: "liquidityClient (sample_env (Some flaky_client)) = None \<or>
            (\<exists>lc. liquidityClient (sample_env (Some flaky_client)) = Some lc \<and>
                  (\<forall>bankID a currency.
                      remote_check (sample_env (Some flaky_client)) ''sample''
                        = Some (bankID, a, currency) \<longrightarrow>
                      isl (CheckLiquidity lc bankID a currency)))"
    using d' by (simp add: c sample_remote_check)
  have h2: "liquidityClient (sample_env None) = None \<or>
            (\<exists>lc. liquidityClient (sample_env None) = Some lc \<and>
                  (\<forall>bankID a currency.
                      remote_check (sample_env None) ''sample'' = Some (bankID, a, currency) \<longrightarrow>
                      isl (CheckLiquidity lc bankID a currency)))"
    by (simp add: sample_env_def)
  show ?thesis
    using checkLiquidity_fails_open [OF h1] checkLiquidity_fails_open [OF h2] c d u
    by (simp add: sample_remote_check)
qed

text \<open>
  C6 as worded, for every input message, fails on malformed XML with no client, and on
  an amount that is not a number with a client that cannot be reached: both messages
  are refused.
\<close>

theorem checkLiquidity_refuses_unparsed:
  "liquidityClient (sample_env None) = None \<and>
   fst (checkLiquidity (sample_env None) ''<Document'') =
     (False, ''LIQUIDITY_CHECK_ERROR'', ''Failed to parse XML for liquidity check'', 0) \<and>
   liquidityClient (sample_env (Some unreachable_client)) = Some unreachable_client \<and>
   isl (CheckLiquidity unreachable_client ''DBSSSGSG'' 1 ''SGD'') \<and>
   fst (checkLiquidity (sample_env (Some unreachable_client)) ''bad-amount'') =
     (False, ''LIQUIDITY_CHECK_ERROR'', ''Failed to parse amount'', 0)"
  by (simp add: checkLiquidity_def sample_env_def sample_Unmarshal_def bad_amount_doc_def
                sample_doc_def sample_tx_def sample_ParseFloat_def Let_def
                unreachable_client_down)

end
